theory Spec2Isabelle
  imports Complex_Main "HOL-Library.Sublist"
begin

section \<open>Strings and the Unicode tables of the Python runtime\<close>

text \<open>
  A Python \<^verbatim>\<open>str\<close> is a sequence of Unicode code points, so a string is a list of
  natural numbers here. \<open>str\<close> turns an ASCII literal into such a list.
\<close>

type_synonym pystr = "nat list"

definition str :: "string \<Rightarrow> pystr" where
  "str cs = map of_char cs"

text \<open>
  \<^verbatim>\<open>import_pdf.py\<close> relies on the Unicode tables of the interpreter in five places:
  \<^verbatim>\<open>str.lower\<close>, \<^verbatim>\<open>str.strip\<close> and the classes \<^verbatim>\<open>\s\<close>, \<^verbatim>\<open>\d\<close>, \<^verbatim>\<open>\w\<close> (with \<^verbatim>\<open>\b\<close>)
  of \<^verbatim>\<open>re\<close>, and the letter equivalence of \<^verbatim>\<open>re.IGNORECASE\<close>. The tables are not part
  of the repository; every function below takes them as the parameter \<open>U\<close>.
  \<open>u_lower\<close> works on the whole string, as \<^verbatim>\<open>str.lower\<close> does (its result for a
  character can depend on the neighbours and can be longer than one code point).
\<close>

record unicode =
  u_isspace :: "nat \<Rightarrow> bool"
  u_isdecimal :: "nat \<Rightarrow> bool"
  u_isalnum :: "nat \<Rightarrow> bool"
  u_lower :: "pystr \<Rightarrow> pystr"
  u_ci_eq :: "nat \<Rightarrow> nat \<Rightarrow> bool"

text \<open>\<^verbatim>\<open>\w\<close>: alphanumeric or the underscore.\<close>

definition is_word :: "unicode \<Rightarrow> nat \<Rightarrow> bool" where
  "is_word U c = (u_isalnum U c \<or> c = 95)"

text \<open>
  The tables on ASCII, used to run the functions on concrete inputs. A code point
  above 127 is classified as whitespace exactly when Python does; it is taken to be
  no digit, no letter and without case, which is right for the three characters
  beyond ASCII the script itself names: the en dash 8211, the em dash 8212 and the
  euro sign 8364.
\<close>

definition ascii_isspace :: "nat \<Rightarrow> bool" where
  "ascii_isspace c = ((9 \<le> c \<and> c \<le> 13) \<or> (28 \<le> c \<and> c \<le> 32) \<or> c = 133 \<or> c = 160
     \<or> c = 5760 \<or> (8192 \<le> c \<and> c \<le> 8202) \<or> c = 8232 \<or> c = 8233 \<or> c = 8239
     \<or> c = 8287 \<or> c = 12288)"

definition ascii_isdecimal :: "nat \<Rightarrow> bool" where
  "ascii_isdecimal c = (48 \<le> c \<and> c \<le> 57)"

definition ascii_isupper :: "nat \<Rightarrow> bool" where
  "ascii_isupper c = (65 \<le> c \<and> c \<le> 90)"

definition ascii_islower :: "nat \<Rightarrow> bool" where
  "ascii_islower c = (97 \<le> c \<and> c \<le> 122)"

definition ascii_isalnum :: "nat \<Rightarrow> bool" where
  "ascii_isalnum c = (ascii_isdecimal c \<or> ascii_isupper c \<or> ascii_islower c)"

definition ascii_lower_char :: "nat \<Rightarrow> nat" where
  "ascii_lower_char c = (if ascii_isupper c then c + 32 else c)"

definition ascii_ci_eq :: "nat \<Rightarrow> nat \<Rightarrow> bool" where
  "ascii_ci_eq p c = (ascii_lower_char p = ascii_lower_char c)"

definition ascii_tables :: unicode where
  "ascii_tables = \<lparr> u_isspace = ascii_isspace, u_isdecimal = ascii_isdecimal,
     u_isalnum = ascii_isalnum, u_lower = map ascii_lower_char, u_ci_eq = ascii_ci_eq \<rparr>"


section \<open>The regular expressions of \<^verbatim>\<open>re\<close>\<close>

text \<open>
  The patterns of the script as syntax trees: \<open>Lit c\<close> a literal character, \<open>Dot\<close>
  the pattern \<^verbatim>\<open>.\<close>, \<open>In neg items\<close> a class \<^verbatim>\<open>[...]\<close> (\<^verbatim>\<open>[^...]\<close> when \<open>neg\<close>) and the
  escapes \<^verbatim>\<open>\d \s \w \W\<close>, \<open>WordB\<close> the assertion \<^verbatim>\<open>\b\<close>, \<open>Star\<close> the greedy \<^verbatim>\<open>*\<close>,
  \<open>Group n\<close> the \<open>n\<close>-th capturing group and \<open>NegLook\<close> the lookahead \<^verbatim>\<open>(?!...)\<close>.
\<close>

datatype cset_item = CChar nat | CRange nat nat | CDigit | CSpace | CWord

datatype regex =
    Lit nat
  | Dot
  | In bool "cset_item list"
  | WordB
  | Eps
  | Seq regex regex
  | Alt regex regex
  | Star regex
  | Group nat regex
  | NegLook regex

text \<open>\<^verbatim>\<open>r+\<close> is \<^verbatim>\<open>rr*\<close> and \<^verbatim>\<open>r?\<close> is \<^verbatim>\<open>r|\<close> (both greedy); \<open>seq\<close> concatenates, \<open>lit\<close> is
  a literal ASCII text.\<close>

definition Plus :: "regex \<Rightarrow> regex" where
  "Plus r = Seq r (Star r)"

definition Opt :: "regex \<Rightarrow> regex" where
  "Opt r = Alt r Eps"

fun seq :: "regex list \<Rightarrow> regex" where
  "seq [] = Eps"
| "seq [r] = r"
| "seq (r # rs) = Seq r (seq rs)"

definition lit :: "string \<Rightarrow> regex" where
  "lit cs = seq (map (\<lambda>c. Lit (of_char c)) cs)"

definition digit :: regex where
  "digit = In False [CDigit]"

definition space :: regex where
  "space = In False [CSpace]"

definition nonword :: regex where
  "nonword = In True [CWord]"

text \<open>
  A position in the searched string is a pair: the characters before it, nearest
  first, and the characters after it. A state of the matcher adds the texts of the
  groups captured so far.
\<close>

type_synonym mstate = "pystr \<times> pystr \<times> (nat \<times> pystr) list"

fun item_matches :: "unicode \<Rightarrow> bool \<Rightarrow> cset_item \<Rightarrow> nat \<Rightarrow> bool" where
  "item_matches U ic (CChar p) c = (if ic then u_ci_eq U p c else p = c)"
| "item_matches U ic (CRange lo hi) c =
     (if ic then list_ex (\<lambda>p. u_ci_eq U p c) [lo..<Suc hi] else lo \<le> c \<and> c \<le> hi)"
| "item_matches U ic CDigit c = u_isdecimal U c"
| "item_matches U ic CSpace c = u_isspace U c"
| "item_matches U ic CWord c = is_word U c"

text \<open>One character is consumed when it satisfies \<open>P\<close>.\<close>

fun step_char :: "(nat \<Rightarrow> bool) \<Rightarrow> mstate \<Rightarrow> mstate list" where
  "step_char P (bef, [], g) = []"
| "step_char P (bef, c # aft, g) = (if P c then [(c # bef, aft, g)] else [])"

text \<open>\<^verbatim>\<open>\b\<close>: exactly one of the two neighbours is a word character.\<close>

fun word_at :: "unicode \<Rightarrow> pystr \<Rightarrow> bool" where
  "word_at U [] = False"
| "word_at U (c # cs) = is_word U c"

fun at_boundary :: "unicode \<Rightarrow> mstate \<Rightarrow> bool" where
  "at_boundary U (bef, aft, g) = (word_at U bef \<noteq> word_at U aft)"

text \<open>The text consumed between the state \<open>st\<close> and a later state \<open>st'\<close>.\<close>

fun consumed :: "mstate \<Rightarrow> mstate \<Rightarrow> pystr" where
  "consumed (bef, aft, g) (bef', aft', g') = rev (take (length bef' - length bef) bef')"

fun set_group :: "nat \<Rightarrow> mstate \<Rightarrow> mstate \<Rightarrow> mstate" where
  "set_group n st (bef', aft', g') = (bef', aft', (n, consumed st (bef', aft', g')) # g')"

fun remaining :: "mstate \<Rightarrow> nat" where
  "remaining (bef, aft, g) = length aft"

text \<open>
  The greedy star: one more round of \<open>f\<close> first, then the rounds so far. A round
  that consumes nothing is not repeated. Every round consumes a character, so
  \<open>remaining st\<close> rounds of fuel are never used up.
\<close>

fun star_from :: "nat \<Rightarrow> (mstate \<Rightarrow> mstate list) \<Rightarrow> mstate \<Rightarrow> mstate list" where
  "star_from 0 f st = [st]"
| "star_from (Suc n) f st =
     concat (map (\<lambda>st'. if remaining st' < remaining st then star_from n f st' else []) (f st))
     @ [st]"

text \<open>
  \<open>matches U ic r st\<close> lists the states in which a match of \<open>r\<close> that starts at \<open>st\<close>
  can end, in the order in which the backtracking matcher of \<^verbatim>\<open>re\<close> tries them; the
  head of the list is the match \<^verbatim>\<open>re\<close> reports. \<open>ic\<close> is the flag \<^verbatim>\<open>re.IGNORECASE\<close>.
\<close>

primrec matches :: "unicode \<Rightarrow> bool \<Rightarrow> regex \<Rightarrow> mstate \<Rightarrow> mstate list" where
  "matches U ic (Lit p) st = step_char (\<lambda>c. if ic then u_ci_eq U p c else p = c) st"
| "matches U ic Dot st = step_char (\<lambda>c. c \<noteq> 10) st"
| "matches U ic (In neg items) st =
     step_char (\<lambda>c. list_ex (\<lambda>it. item_matches U ic it c) items \<noteq> neg) st"
| "matches U ic WordB st = (if at_boundary U st then [st] else [])"
| "matches U ic Eps st = [st]"
| "matches U ic (Seq r1 r2) st = concat (map (matches U ic r2) (matches U ic r1 st))"
| "matches U ic (Alt r1 r2) st = matches U ic r1 st @ matches U ic r2 st"
| "matches U ic (Star r) st = star_from (remaining st) (matches U ic r) st"
| "matches U ic (Group n r) st = map (set_group n st) (matches U ic r st)"
| "matches U ic (NegLook r) st = (if matches U ic r st = [] then [st] else [])"

text \<open>
  \<^verbatim>\<open>regex.search\<close>: the leftmost position at which the pattern matches, with the
  state at the end of the match.
\<close>

fun search_from :: "unicode \<Rightarrow> bool \<Rightarrow> regex \<Rightarrow> pystr \<Rightarrow> pystr \<Rightarrow> (mstate \<times> mstate) option" where
  "search_from U ic r bef [] =
     (case matches U ic r (bef, [], []) of
        [] \<Rightarrow> None
      | m # ms \<Rightarrow> Some ((bef, [], []), m))"
| "search_from U ic r bef (c # aft) =
     (case matches U ic r (bef, c # aft, []) of
        [] \<Rightarrow> search_from U ic r (c # bef) aft
      | m # ms \<Rightarrow> Some ((bef, c # aft, []), m))"

definition re_search :: "unicode \<Rightarrow> bool \<Rightarrow> regex \<Rightarrow> pystr \<Rightarrow> (mstate \<times> mstate) option" where
  "re_search U ic r s = search_from U ic r [] s"

text \<open>
  \<^verbatim>\<open>regex.findall\<close> for a pattern without groups: the texts of the matches, left to
  right, none overlapping. \<open>skip\<close> counts the characters of the last match that are
  still to be passed. (No pattern of the script matches the empty string; such a match
  would be reported and the scan moved on by one character.)
\<close>

fun findall_from :: "unicode \<Rightarrow> regex \<Rightarrow> pystr \<Rightarrow> pystr \<Rightarrow> nat \<Rightarrow> pystr list" where
  "findall_from U r bef [] skip =
     (if 0 < skip then []
      else case matches U False r (bef, [], []) of
        [] \<Rightarrow> []
      | m # ms \<Rightarrow> [consumed (bef, [], []) m])"
| "findall_from U r bef (c # aft) skip =
     (if 0 < skip then findall_from U r (c # bef) aft (skip - 1)
      else case matches U False r (bef, c # aft, []) of
        [] \<Rightarrow> findall_from U r (c # bef) aft 0
      | m # ms \<Rightarrow> consumed (bef, c # aft, []) m
          # findall_from U r (c # bef) aft (length (consumed (bef, c # aft, []) m) - 1))"

definition re_findall :: "unicode \<Rightarrow> regex \<Rightarrow> pystr \<Rightarrow> pystr list" where
  "re_findall U r s = findall_from U r [] s 0"

text \<open>
  \<^verbatim>\<open>re.sub\<close>: every match is replaced by the expanded template, the text between the
  matches is kept. A template is a list of literal texts and group references
  \<^verbatim>\<open>\1\<close>, \<^verbatim>\<open>\2\<close>.
\<close>

datatype repl_item = RLit pystr | RGroup nat

fun expand_item :: "mstate \<Rightarrow> repl_item \<Rightarrow> pystr" where
  "expand_item m (RLit s) = s"
| "expand_item (bef, aft, g) (RGroup n) = (case map_of g n of None \<Rightarrow> [] | Some s \<Rightarrow> s)"

definition expand :: "repl_item list \<Rightarrow> mstate \<Rightarrow> pystr" where
  "expand repl m = concat (map (expand_item m) repl)"

fun sub_from :: "unicode \<Rightarrow> regex \<Rightarrow> repl_item list \<Rightarrow> pystr \<Rightarrow> pystr \<Rightarrow> nat \<Rightarrow> pystr" where
  "sub_from U r repl bef [] skip =
     (if 0 < skip then []
      else case matches U False r (bef, [], []) of
        [] \<Rightarrow> []
      | m # ms \<Rightarrow> expand repl m)"
| "sub_from U r repl bef (c # aft) skip =
     (if 0 < skip then sub_from U r repl (c # bef) aft (skip - 1)
      else case matches U False r (bef, c # aft, []) of
        [] \<Rightarrow> c # sub_from U r repl (c # bef) aft 0
      | m # ms \<Rightarrow>
          (if consumed (bef, c # aft, []) m = []
           then expand repl m @ c # sub_from U r repl (c # bef) aft 0
           else expand repl m
             @ sub_from U r repl (c # bef) aft (length (consumed (bef, c # aft, []) m) - 1)))"

definition re_sub :: "unicode \<Rightarrow> regex \<Rightarrow> repl_item list \<Rightarrow> pystr \<Rightarrow> pystr" where
  "re_sub U r repl s = sub_from U r repl [] s 0"

text \<open>\<^verbatim>\<open>str.strip()\<close>, \<^verbatim>\<open>str.replace\<close> of one character by another, \<^verbatim>\<open>sep.join(xs)\<close> and
  \<^verbatim>\<open>s.split(" ")\<close>.\<close>

definition strip :: "unicode \<Rightarrow> pystr \<Rightarrow> pystr" where
  "strip U s = rev (dropWhile (u_isspace U) (rev (dropWhile (u_isspace U) s)))"

definition replace_char :: "nat \<Rightarrow> nat \<Rightarrow> pystr \<Rightarrow> pystr" where
  "replace_char old new s = map (\<lambda>c. if c = old then new else c) s"

fun join :: "pystr \<Rightarrow> pystr list \<Rightarrow> pystr" where
  "join sep [] = []"
| "join sep [x] = x"
| "join sep (x # xs) = x @ sep @ join sep xs"

fun split_on :: "nat \<Rightarrow> pystr \<Rightarrow> pystr list" where
  "split_on d [] = [[]]"
| "split_on d (c # cs) =
     (if c = d then [] # split_on d cs
      else case split_on d cs of
        [] \<Rightarrow> [[c]]
      | w # ws \<Rightarrow> (c # w) # ws)"


section \<open>\<^verbatim>\<open>normalize\<close> and \<^verbatim>\<open>find_price_tokens\<close>\<close>

text \<open>
  \<^verbatim>\<open>PRICE_RE = \d+(?:[.,]\d+)?\s*\<close>\<open>\<euro>\<close> and \<^verbatim>\<open>RANGE_RE = \d+\s*[\<close>\<open>\<euro>\<close>\<^verbatim>\<open>-]\s*\d+\s*\<close>\<open>\<euro>\<close>
  (lines 17 and 18), with the euro sign 8364, the en dash 8211 and the hyphen 45.
\<close>

definition PRICE_RE :: regex where
  "PRICE_RE = seq [Plus digit, Opt (Seq (In False [CChar 46, CChar 44]) (Plus digit)),
     Star space, Lit 8364]"

definition RANGE_RE :: regex where
  "RANGE_RE = seq [Plus digit, Star space, In False [CChar 8211, CChar 45], Star space,
     Plus digit, Star space, Lit 8364]"

text \<open>
  \<^verbatim>\<open>normalize\<close> (lines 21 to 29). The three patterns are \<^verbatim>\<open>[^a-z0-9 ]+\<close>, \<^verbatim>\<open>\s+\<close> and
  \<^verbatim>\<open>\b([a-z])\s+([a-z])\b\<close>, the last replaced by \<^verbatim>\<open>\1\2\<close>.
\<close>

definition az :: regex where
  "az = In False [CRange 97 122]"

definition normalize :: "unicode \<Rightarrow> pystr \<Rightarrow> pystr" where
  "normalize U text0 =
     (let text1 = u_lower U text0;
          text2 = replace_char 8212 45 (replace_char 8211 45 text1);
          text3 = re_sub U (Plus (In True [CRange 97 122, CRange 48 57, CChar 32]))
                    [RLit [32]] text2;
          text4 = strip U (re_sub U (Plus space) [RLit [32]] text3);
          text5 = re_sub U (seq [WordB, Group 1 az, Plus space, Group 2 az, WordB])
                    [RGroup 1, RGroup 2] text4
      in strip U (re_sub U (Plus space) [RLit [32]] text5))"

text \<open>
  \<^verbatim>\<open>find_price_tokens\<close> (lines 69 to 75): the list starts as all matches of
  \<^verbatim>\<open>RANGE_RE\<close>; a match of \<^verbatim>\<open>PRICE_RE\<close> is appended unless it is in the list already.
\<close>

definition add_token :: "pystr list \<Rightarrow> pystr \<Rightarrow> pystr list" where
  "add_token tokens m = (if m \<in> set tokens then tokens else tokens @ [m])"

definition find_price_tokens :: "unicode \<Rightarrow> pystr \<Rightarrow> pystr list" where
  "find_price_tokens U text0 =
     foldl add_token (re_findall U RANGE_RE text0) (re_findall U PRICE_RE text0)"


section \<open>The alias table and the matchers\<close>

text \<open>
  \<^verbatim>\<open>ALIASES\<close> (lines 78 to 122), each pattern as its syntax tree. \<open>bw s\<close> is the
  pattern \<^verbatim>\<open>\bs\b\<close>, \<open>bw2 s t\<close> is \<^verbatim>\<open>\bs\b.*\bt\b\<close> and \<open>bw3 s t u\<close> is
  \<^verbatim>\<open>\bs\b.*\bt\b.*\bu\b\<close>; the escapes \<^verbatim>\<open>\(\<close> and \<^verbatim>\<open>\)\<close> are the literal parentheses, and
  232 is the letter e with a grave accent.
\<close>

definition bw :: "string \<Rightarrow> regex" where
  "bw s = seq [WordB, lit s, WordB]"

definition bw2 :: "string \<Rightarrow> string \<Rightarrow> regex" where
  "bw2 s t = seq [WordB, lit s, WordB, Star Dot, WordB, lit t, WordB]"

definition bw3 :: "string \<Rightarrow> string \<Rightarrow> string \<Rightarrow> regex" where
  "bw3 s t u = seq [WordB, lit s, WordB, Star Dot, WordB, lit t, WordB, Star Dot,
     WordB, lit u, WordB]"

definition hermes_ultra :: regex where
  "hermes_ultra = seq [WordB, lit ''herm'', In False [CChar 101, CChar 232], lit ''s'', WordB,
     Star Dot, WordB, lit ''ultra'', WordB]"

definition ALIASES :: "(pystr \<times> regex list) list" where
  "ALIASES = [
    (str ''iphone-17-pro'', [bw ''iphone 17 pro'']),
    (str ''iphone-17-pro-max'', [bw ''iphone 17 pro max'', bw ''17 pro max'']),
    (str ''iphone-air'', [bw ''iphone air'']),
    (str ''iphone-17'', [bw ''iphone 17, 16'', bw ''iphone 17'']),
    (str ''iphone-16'', [bw ''iphone 17, 16'',
       seq [WordB, lit ''iphone 16'', WordB,
            NegLook (Seq (Star space) (Group 1 (Alt (lit ''e'') (lit ''plus''))))]]),
    (str ''iphone-16-plus'', [bw ''iphone 16 plus'']),
    (str ''iphone-16e'', [bw ''iphone 16e'']),
    (str ''ipad-10-a16'', [bw ''ipad, ipad mini'', bw2 ''ipad'' ''a16'', bw ''ipad (a16)'']),
    (str ''ipad-mini-a17-pro'', [bw ''ipad, ipad mini'', bw2 ''ipad mini'' ''a17 pro'',
       bw ''ipad mini (a17 pro)'']),
    (str ''ipad-air-11'', [bw ''ipad air 11'', bw2 ''ipad air 11'' ''m3'',
       bw2 ''ipad air 11'' ''m2'']),
    (str ''ipad-air-13'', [bw ''ipad air 13'', bw2 ''ipad air 13'' ''m3'',
       bw2 ''ipad air 13'' ''m2'']),
    (str ''ipad-pro-11'', [bw2 ''ipad pro 11'' ''m5'', bw2 ''ipad pro 11'' ''m4'']),
    (str ''ipad-pro-13'', [bw2 ''ipad pro 13'' ''m5'', bw2 ''ipad pro 13'' ''m4'']),
    (str ''watch-se-3'', [bw2 ''apple watch'' ''se'']),
    (str ''watch-series-11'', [bw3 ''apple watch'' ''series'' ''11'']),
    (str ''watch-ultra-3'', [bw2 ''apple watch'' ''ultra'']),
    (str ''watch-hermes-11'', [bw ''apple watch edition'', hermes_ultra]),
    (str ''watch-hermes-ultra-3'', [bw ''apple watch edition'', hermes_ultra]),
    (str ''macbook-air-13'', [bw ''macbook air 13'']),
    (str ''macbook-air-15'', [bw ''macbook air 15'']),
    (str ''macbook-pro-14'', [bw ''macbook pro 14'']),
    (str ''macbook-pro-16'', [bw ''macbook pro 16'']),
    (str ''imac'', [bw ''imac'']),
    (str ''mac-mini'', [bw ''mac mini'']),
    (str ''mac-studio'', [bw ''mac studio'']),
    (str ''mac-pro'', [bw ''mac pro'']),
    (str ''studio-display'', [bw ''studio display'']),
    (str ''pro-display-xdr'', [bw ''pro display xdr'', bw ''pro display'']),
    (str ''airpods-4'', [bw2 ''airpods, airpods pro'' ''2e'', bw ''airpods'']),
    (str ''airpods-4-anc'', [bw2 ''airpods, airpods pro'' ''2e'', bw ''airpods'']),
    (str ''airpods-pro-3'', [bw2 ''airpods pro'' ''3e'', bw2 ''airpods pro'' ''3'']),
    (str ''airpods-max'', [bw ''airpods max'']),
    (str ''appletv-4k'', [bw ''apple tv'']),
    (str ''homepod-mini'', [bw ''homepod mini'']),
    (str ''homepod-2'', [seq [WordB, lit ''homepod'', WordB, NegLook (lit '' mini'')]]),
    (str ''beats-studio-pro'', [bw ''beats'']),
    (str ''beats-solo-4'', [bw ''beats'']),
    (str ''beats-solo-buds'', [bw ''beats'']),
    (str ''powerbeats-fit'', [bw ''beats'']),
    (str ''powerbeats-pro-2'', [bw ''beats'']),
    (str ''beats-studio-buds-plus'', [bw ''beats'']),
    (str ''beats-flex'', [bw ''beats'']),
    (str ''beats-pill'', [bw ''beats''])]"

text \<open>\<^verbatim>\<open>ALIASES.get(item_id, [])\<close>.\<close>

definition aliases_get :: "pystr \<Rightarrow> regex list" where
  "aliases_get item_id = (case map_of ALIASES item_id of None \<Rightarrow> [] | Some ps \<Rightarrow> ps)"

text \<open>
  \<^verbatim>\<open>choose_row\<close>, lines 125 to 135: the alias patterns in their order, and for each
  pattern the rows in their order; the first row whose normalized text the pattern
  finds is returned.
\<close>

definition row_matches :: "unicode \<Rightarrow> regex \<Rightarrow> pystr list \<Rightarrow> bool" where
  "row_matches U pattern row =
     (re_search U False pattern (normalize U (join [32] row)) \<noteq> None)"

fun scan_rows :: "unicode \<Rightarrow> regex \<Rightarrow> pystr list list \<Rightarrow> pystr option" where
  "scan_rows U pattern [] = None"
| "scan_rows U pattern (row # rows) =
     (if row_matches U pattern row then Some (join [32] row) else scan_rows U pattern rows)"

fun scan_patterns :: "unicode \<Rightarrow> regex list \<Rightarrow> pystr list list \<Rightarrow> pystr option" where
  "scan_patterns U [] rows = None"
| "scan_patterns U (pattern # candidates) rows =
     (case scan_rows U pattern rows of
        Some row_text \<Rightarrow> Some row_text
      | None \<Rightarrow> scan_patterns U candidates rows)"

text \<open>
  Lines 137 to 152: the words of the normalized name, and for each row the number of
  them that occur in the normalized row (\<^verbatim>\<open>w in row_norm\<close> is the substring test). The
  loop keeps the first row with the highest score seen so far.
\<close>

definition target_words_of :: "unicode \<Rightarrow> pystr \<Rightarrow> pystr list" where
  "target_words_of U product_name = filter (\<lambda>w. w \<noteq> []) (split_on 32 (normalize U product_name))"

definition score :: "pystr list \<Rightarrow> pystr \<Rightarrow> nat" where
  "score target_words row_norm = length (filter (\<lambda>w. sublist w row_norm) target_words)"

fun best_row :: "unicode \<Rightarrow> pystr list \<Rightarrow> pystr list list \<Rightarrow> pystr option \<times> nat
    \<Rightarrow> pystr option \<times> nat" where
  "best_row U target_words [] (best, best_score) = (best, best_score)"
| "best_row U target_words (row # rows) (best, best_score) =
     (let row_text = join [32] row; row_norm = normalize U row_text in
      if row_norm = [] then best_row U target_words rows (best, best_score)
      else if best_score < score target_words row_norm
      then best_row U target_words rows (Some row_text, score target_words row_norm)
      else best_row U target_words rows (best, best_score))"

definition choose_row :: "unicode \<Rightarrow> pystr \<Rightarrow> pystr \<Rightarrow> pystr list list \<Rightarrow> pystr option" where
  "choose_row U item_id product_name rows =
     (let candidates = aliases_get item_id in
      if candidates \<noteq> [] then scan_patterns U candidates rows
      else
        let target_words = target_words_of U product_name;
            (best, best_score) = best_row U target_words rows (None, 0)
        in if max 2 (length target_words div 2) \<le> best_score then best else None)"

text \<open>
  \<^verbatim>\<open>search_in_text\<close>, lines 155 to 171. \<open>flexible\<close> is
  \<^verbatim>\<open>pattern.replace(" ", r"\W+")\<close> on the syntax tree: every literal space becomes
  \<^verbatim>\<open>\W+\<close> (no class of the table contains a space). For an item without aliases the
  pattern is \<^verbatim>\<open>re.escape(product_name)\<close>, in which a space is written as a backslash
  and a space; the replacement turns that into \<^verbatim>\<open>\\W+\<close>, a literal backslash (92)
  followed by the letter W (87) once or more.
\<close>

primrec flexible :: "regex \<Rightarrow> regex" where
  "flexible (Lit c) = (if c = 32 then Plus nonword else Lit c)"
| "flexible Dot = Dot"
| "flexible (In neg items) = In neg items"
| "flexible WordB = WordB"
| "flexible Eps = Eps"
| "flexible (Seq r1 r2) = Seq (flexible r1) (flexible r2)"
| "flexible (Alt r1 r2) = Alt (flexible r1) (flexible r2)"
| "flexible (Star r) = Star (flexible r)"
| "flexible (Group n r) = Group n (flexible r)"
| "flexible (NegLook r) = NegLook (flexible r)"

definition escaped_flexible :: "pystr \<Rightarrow> regex" where
  "escaped_flexible product_name =
     seq (concat (map (\<lambda>c. if c = 32 then [Lit 92, Plus (Lit 87)] else [Lit c]) product_name))"

fun search_block :: "unicode \<Rightarrow> regex list \<Rightarrow> pystr \<Rightarrow> pystr option" where
  "search_block U [] block = None"
| "search_block U (flex # patterns) block =
     (case re_search U True flex block of
        None \<Rightarrow> search_block U patterns block
      | Some (start, (bef, aft, g)) \<Rightarrow>
          (let window = take 600 aft in
           if find_price_tokens U window \<noteq> [] then Some window
           else search_block U patterns block))"

fun search_blocks :: "unicode \<Rightarrow> regex list \<Rightarrow> pystr list \<Rightarrow> pystr option" where
  "search_blocks U patterns [] = None"
| "search_blocks U patterns (block # text_blocks) =
     (case search_block U patterns block of
        Some window \<Rightarrow> Some window
      | None \<Rightarrow> search_blocks U patterns text_blocks)"

definition search_in_text :: "unicode \<Rightarrow> pystr \<Rightarrow> pystr \<Rightarrow> pystr list \<Rightarrow> pystr option" where
  "search_in_text U product_id product_name text_blocks =
     (let patterns = aliases_get product_id in
      search_blocks U
        (if patterns = [] then [escaped_flexible product_name] else map flexible patterns)
        text_blocks)"


section \<open>The catalog and \<^verbatim>\<open>update_prices\<close>\<close>

text \<open>
  The catalog is the JSON document of section 6 of the specification. A field the
  script reads with \<^verbatim>\<open>.get\<close> may be missing (\<open>None\<close>). A JSON value is \<^verbatim>\<open>null\<close>, a
  string, a list, or something else the script never looks into (\<open>JOther\<close>); the keys
  of an object that the script never names are kept in its \<open>_rest\<close> field. The order
  of the keys of an object is not modelled. Ids and names are strings and \<^verbatim>\<open>appleCare\<close>
  is an object, as section 6 of the specification has them; on a value of another
  JSON type in their place the script raises, which is outside this model.
\<close>

datatype 'o jval = JNull | JStr pystr | JList "'o jval list" | JOther 'o

record 'o applecare =
  standardOneTime :: "'o jval option"
  standardMonthly :: "'o jval option"
  theftOneTime :: "'o jval option"
  theftMonthly :: "'o jval option"
  ac_rest :: "(pystr \<times> 'o jval) list"

record 'o item =
  item_id :: "pystr option"
  item_name :: "pystr option"
  appleCare :: "'o applecare option"
  item_rest :: "(pystr \<times> 'o jval) list"

record 'o category =
  cat_id :: "pystr option"
  cat_items :: "'o item list option"
  cat_rest :: "(pystr \<times> 'o jval) list"

record 'o catalog =
  categories :: "'o category list option"
  lastUpdated :: "'o jval option"
  sources :: "'o jval option"
  catalog_rest :: "(pystr \<times> 'o jval) list"

text \<open>The entries of the list \<^verbatim>\<open>updates\<close> and the three values the function returns.\<close>

datatype status = Updated | NoMatch | NotEnoughPrices

record entry =
  e_id :: pystr
  e_status :: status
  e_row :: "pystr option"

record counters =
  matched :: nat
  total :: nat
  updates :: "entry list"

datatype py_error = KeyError | FetchError | ZeroDivisionError

text \<open>\<^verbatim>\<open>not row_text\<close> holds for \<^verbatim>\<open>None\<close> and for the empty string.\<close>

fun falsy :: "pystr option \<Rightarrow> bool" where
  "falsy None = True"
| "falsy (Some s) = (s = [])"

text \<open>\<^verbatim>\<open>item.get("id", "")\<close>, \<^verbatim>\<open>item.get("name", "")\<close> and \<^verbatim>\<open>item.get("appleCare", {})\<close>.\<close>

definition get_id :: "'o item \<Rightarrow> pystr" where
  "get_id it = (case item_id it of None \<Rightarrow> [] | Some s \<Rightarrow> s)"

definition get_name :: "'o item \<Rightarrow> pystr" where
  "get_name it = (case item_name it of None \<Rightarrow> [] | Some s \<Rightarrow> s)"

definition empty_applecare :: "'o applecare" where
  "empty_applecare = \<lparr> standardOneTime = None, standardMonthly = None, theftOneTime = None,
     theftMonthly = None, ac_rest = [] \<rparr>"

definition get_applecare :: "'o item \<Rightarrow> 'o applecare" where
  "get_applecare it = (case appleCare it of None \<Rightarrow> empty_applecare | Some a \<Rightarrow> a)"

text \<open>Lines 195 to 197: two prices are expected when \<^verbatim>\<open>standardMonthly\<close> is there and
  not \<^verbatim>\<open>null\<close>, one otherwise.\<close>

definition expected_of :: "'o applecare \<Rightarrow> nat" where
  "expected_of a =
     (case standardMonthly a of None \<Rightarrow> 1 | Some JNull \<Rightarrow> 1 | Some v \<Rightarrow> 2)"

text \<open>
  Lines 184 to 189: the row for the item, from the rows first and from the text
  blocks when no row was found; the flag says whether the text was searched.
\<close>

definition locate :: "unicode \<Rightarrow> pystr list list \<Rightarrow> pystr list \<Rightarrow> 'o item
    \<Rightarrow> pystr option \<times> bool" where
  "locate U rows text_blocks it =
     (let row_text = choose_row U (get_id it) (get_name it) rows in
      if falsy row_text \<and> text_blocks \<noteq> []
      then (search_in_text U (get_id it) (get_name it) text_blocks, True)
      else (row_text, False))"

text \<open>
  Lines 193 to 204: the prices of the row; when they are fewer than expected and the
  text was not searched yet, the window found in the text blocks replaces the row.
\<close>

definition final_match :: "unicode \<Rightarrow> pystr list \<Rightarrow> 'o item \<Rightarrow> pystr \<Rightarrow> bool
    \<Rightarrow> pystr \<times> pystr list" where
  "final_match U text_blocks it row_text used_text_search =
     (let prices = find_price_tokens U row_text;
          expected = expected_of (get_applecare it) in
      if length prices < expected \<and> \<not> used_text_search \<and> text_blocks \<noteq> []
      then (case search_in_text U (get_id it) (get_name it) text_blocks of
              None \<Rightarrow> (row_text, prices)
            | Some fallback_text \<Rightarrow>
                if fallback_text = [] then (row_text, prices)
                else (fallback_text, find_price_tokens U fallback_text))
      else (row_text, prices))"

text \<open>Lines 210 to 218: the prices written into the \<^verbatim>\<open>appleCare\<close> object.\<close>

definition assign :: "nat \<Rightarrow> pystr list \<Rightarrow> 'o applecare \<Rightarrow> 'o applecare" where
  "assign expected prices a =
     (let a1 = (if expected = 2
                then a\<lparr> standardOneTime := Some (JStr (prices ! 0)),
                        standardMonthly := Some (JStr (prices ! 1)) \<rparr>
                else a\<lparr> standardOneTime := Some (JStr (prices ! 0)) \<rparr>)
      in if 4 \<le> length prices
         then a1\<lparr> theftOneTime := Some (JStr (prices ! 2)),
                  theftMonthly := Some (JStr (prices ! 3)) \<rparr>
         else a1)"

text \<open>
  The body of the loop over the items, lines 183 to 222. Every index of \<open>prices\<close>
  that \<open>assign\<close> reads is below \<open>length prices\<close> there: \<open>assign\<close> is reached only
  with \<open>expected \<le> length prices\<close>.
\<close>

definition update_item :: "unicode \<Rightarrow> pystr list list \<Rightarrow> pystr list \<Rightarrow> counters \<Rightarrow> 'o item
    \<Rightarrow> counters \<times> 'o item" where
  "update_item U rows text_blocks st0 it =
     (let st = st0\<lparr> total := total st0 + 1 \<rparr>;
          (row_text0, used_text_search) = locate U rows text_blocks it in
      case (if falsy row_text0 then None else row_text0) of
        None \<Rightarrow>
          (st\<lparr> updates := updates st
              @ [\<lparr> e_id = get_id it, e_status = NoMatch, e_row = None \<rparr>] \<rparr>,
           it)
      | Some row_text1 \<Rightarrow>
          (let (row_text, prices) = final_match U text_blocks it row_text1 used_text_search;
               applecare = get_applecare it;
               expected = expected_of applecare in
           if length prices < expected
           then (st\<lparr> updates := updates st
                    @ [\<lparr> e_id = get_id it, e_status = NotEnoughPrices, e_row = Some row_text \<rparr>] \<rparr>,
                 it)
           else (st\<lparr> matched := matched st + 1,
                     updates := updates st
                       @ [\<lparr> e_id = get_id it, e_status = Updated, e_row = Some row_text \<rparr>] \<rparr>,
                 it\<lparr> appleCare := Some (assign expected prices applecare) \<rparr>)))"

fun update_items :: "unicode \<Rightarrow> pystr list list \<Rightarrow> pystr list \<Rightarrow> counters \<Rightarrow> 'o item list
    \<Rightarrow> counters \<times> 'o item list" where
  "update_items U rows text_blocks st [] = (st, [])"
| "update_items U rows text_blocks st (it # its) =
     (let (st1, it') = update_item U rows text_blocks st it;
          (st2, its') = update_items U rows text_blocks st1 its
      in (st2, it' # its'))"

text \<open>
  The body of the loop over the categories, lines 180 to 182. \<^verbatim>\<open>category["id"]\<close>
  raises \<^verbatim>\<open>KeyError\<close> when the category has no id; a category without \<^verbatim>\<open>items\<close> has
  none to visit.
\<close>

definition update_category :: "unicode \<Rightarrow> pystr list list \<Rightarrow> pystr list \<Rightarrow> pystr set \<Rightarrow> counters
    \<Rightarrow> 'o category \<Rightarrow> py_error + counters \<times> 'o category" where
  "update_category U rows text_blocks category_ids st c =
     (case cat_id c of
        None \<Rightarrow> Inl KeyError
      | Some cid \<Rightarrow>
          if cid \<notin> category_ids then Inr (st, c)
          else (case cat_items c of
                  None \<Rightarrow> Inr (st, c)
                | Some its \<Rightarrow>
                    (let (st', its') = update_items U rows text_blocks st its
                     in Inr (st', c\<lparr> cat_items := Some its' \<rparr>))))"

fun update_categories :: "unicode \<Rightarrow> pystr list list \<Rightarrow> pystr list \<Rightarrow> pystr set \<Rightarrow> counters
    \<Rightarrow> 'o category list \<Rightarrow> py_error + counters \<times> 'o category list" where
  "update_categories U rows text_blocks category_ids st [] = Inr (st, [])"
| "update_categories U rows text_blocks category_ids st (c # cs) =
     (case update_category U rows text_blocks category_ids st c of
        Inl e \<Rightarrow> Inl e
      | Inr (st1, c') \<Rightarrow>
          (case update_categories U rows text_blocks category_ids st1 cs of
             Inl e \<Rightarrow> Inl e
           | Inr (st2, cs') \<Rightarrow> Inr (st2, c' # cs')))"

text \<open>
  \<^verbatim>\<open>update_prices\<close>, lines 174 to 224. The Python function changes the catalog in
  place and returns \<^verbatim>\<open>(matched, total, updates)\<close>; the model returns the counters and
  the catalog after the call, or the exception.
\<close>

definition update_prices :: "unicode \<Rightarrow> 'o catalog \<Rightarrow> pystr list list \<Rightarrow> pystr list \<Rightarrow> pystr set
    \<Rightarrow> py_error + counters \<times> 'o catalog" where
  "update_prices U cat rows text_blocks category_ids =
     (let st = \<lparr> matched = 0, total = 0, updates = [] \<rparr> in
      case categories cat of
        None \<Rightarrow> Inr (st, cat)
      | Some cs \<Rightarrow>
          (case update_categories U rows text_blocks category_ids st cs of
             Inl e \<Rightarrow> Inl e
           | Inr (st', cs') \<Rightarrow> Inr (st', cat\<lparr> categories := Some cs' \<rparr>)))"


section \<open>The extraction helpers and \<^verbatim>\<open>main\<close>\<close>

text \<open>
  What the document extractor gives for one page: the tables (a cell is a string or
  \<^verbatim>\<open>None\<close>) and the text, either of which may be \<^verbatim>\<open>None\<close>.
\<close>

record page =
  page_tables :: "pystr option list list list option"
  page_text :: "pystr option"

text \<open>\<^verbatim>\<open>extract_tables\<close>, lines 32 to 44.\<close>

definition clean_cell :: "unicode \<Rightarrow> pystr option \<Rightarrow> pystr" where
  "clean_cell U cell = (if falsy cell then [] else strip U (case cell of Some s \<Rightarrow> s | None \<Rightarrow> []))"

definition table_rows :: "unicode \<Rightarrow> pystr option list list \<Rightarrow> pystr list list" where
  "table_rows U table =
     filter (\<lambda>cells. list_ex (\<lambda>cell. cell \<noteq> []) cells)
       (map (map (clean_cell U)) (filter (\<lambda>row. row \<noteq> []) table))"

definition extract_tables :: "unicode \<Rightarrow> page list \<Rightarrow> pystr list list" where
  "extract_tables U pages =
     concat (map (\<lambda>pg. concat (map (table_rows U)
       (case page_tables pg of None \<Rightarrow> [] | Some ts \<Rightarrow> ts))) pages)"

text \<open>\<^verbatim>\<open>str.splitlines()\<close>: a line ends at a line boundary, and \<^verbatim>\<open>\r\n\<close> is one
  boundary.\<close>

definition is_linebreak :: "nat \<Rightarrow> bool" where
  "is_linebreak c = ((10 \<le> c \<and> c \<le> 13) \<or> (28 \<le> c \<and> c \<le> 30) \<or> c = 133 \<or> c = 8232 \<or> c = 8233)"

fun splitlines_acc :: "pystr \<Rightarrow> pystr \<Rightarrow> pystr list" where
  "splitlines_acc cur [] = (if cur = [] then [] else [rev cur])"
| "splitlines_acc cur [c] =
     (if is_linebreak c then [rev cur] else splitlines_acc (c # cur) [])"
| "splitlines_acc cur (c # d # cs) =
     (if c = 13 \<and> d = 10 then rev cur # splitlines_acc [] cs
      else if is_linebreak c then rev cur # splitlines_acc [] (d # cs)
      else splitlines_acc (c # cur) (d # cs))"

definition splitlines :: "pystr \<Rightarrow> pystr list" where
  "splitlines s = splitlines_acc [] s"

text \<open>\<^verbatim>\<open>extract_text_rows\<close>, lines 47 to 56, and \<^verbatim>\<open>extract_text_blocks\<close>, lines 59 to
  66.\<close>

definition text_of :: "page \<Rightarrow> pystr" where
  "text_of pg = (if falsy (page_text pg) then [] else (case page_text pg of Some s \<Rightarrow> s | None \<Rightarrow> []))"

definition extract_text_rows :: "unicode \<Rightarrow> page list \<Rightarrow> pystr list list" where
  "extract_text_rows U pages =
     concat (map (\<lambda>pg. map (\<lambda>line. [line])
       (filter (\<lambda>line. line \<noteq> []) (map (strip U) (splitlines (text_of pg))))) pages)"

definition extract_text_blocks :: "unicode \<Rightarrow> page list \<Rightarrow> pystr list" where
  "extract_text_blocks U pages =
     filter (\<lambda>t. strip U t \<noteq> []) (map text_of pages)"

text \<open>
  What a run of the script finds: whether \<^verbatim>\<open>pdfplumber\<close> could be imported, the flag
  \<^verbatim>\<open>--force\<close>, the two URLs of the configuration, the catalog read from the output
  file, the document behind a URL (\<open>None\<close> when fetching or opening it raises) and
  the date of the day. What it leaves behind: the exit code, the report when it was
  written and the catalog when it was written.
\<close>

record 'o world =
  w_pdfplumber :: bool
  w_force :: bool
  w_pdf_url :: "pystr option"
  w_mac_pdf_url :: "pystr option"
  w_catalog :: "'o catalog"
  w_fetch :: "pystr \<Rightarrow> page list option"
  w_today :: pystr

record report =
  r_matched :: nat
  r_total :: nat
  r_ratio :: rat
  r_main :: "entry list"
  r_mac :: "entry list"

record 'o run =
  exit_code :: nat
  report_written :: "report option"
  catalog_written :: "'o catalog option"

definition stopped :: "nat \<Rightarrow> 'o run" where
  "stopped code = \<lparr> exit_code = code, report_written = None, catalog_written = None \<rparr>"

text \<open>
  Line 284, \<^verbatim>\<open>ratio = (matched / total) if total else 0\<close>, and the constant \<^verbatim>\<open>1.0\<close> the
  ratio is compared with in line 298. Python's division raises \<^verbatim>\<open>ZeroDivisionError\<close>
  for the divisor 0. The quotient is a Python float; it is the exact fraction here.
  Both are below 1.0 for the same counts as long as \<open>total\<close> is at most \<open>2 ^ 53\<close>.
\<close>

definition py_truediv :: "nat \<Rightarrow> nat \<Rightarrow> py_error + rat" where
  "py_truediv m t = (if t = 0 then Inl ZeroDivisionError else Inr (of_nat m / of_nat t))"

definition ratio_of :: "nat \<Rightarrow> nat \<Rightarrow> py_error + rat" where
  "ratio_of m t = (if t \<noteq> 0 then py_truediv m t else Inr 0)"

definition threshold :: rat where
  "threshold = 1"

text \<open>Lines 282 to 308: the report, the acceptance test and the write of the catalog.\<close>

definition finish :: "bool \<Rightarrow> pystr \<Rightarrow> pystr option \<Rightarrow> pystr \<Rightarrow> counters \<Rightarrow> counters \<Rightarrow> 'o catalog
    \<Rightarrow> 'o run" where
  "finish force_flag pdf_url mac_pdf_url today st_main st_mac cat =
     (let total_all = total st_main + total st_mac;
          matched_all = matched st_main + matched st_mac
      in case ratio_of matched_all total_all of
        Inl e \<Rightarrow> stopped 1
      | Inr ratio \<Rightarrow>
          (let rep = \<lparr> r_matched = matched_all, r_total = total_all, r_ratio = ratio,
                       r_main = updates st_main, r_mac = updates st_mac \<rparr>
           in if ratio < threshold \<and> \<not> force_flag
              then \<lparr> exit_code = 2, report_written = Some rep, catalog_written = None \<rparr>
              else \<lparr> exit_code = 0, report_written = Some rep,
                      catalog_written = Some (cat\<lparr> lastUpdated := Some (JStr today),
                        sources := Some (JList (JStr pdf_url
                          # (case (if falsy mac_pdf_url then None else mac_pdf_url) of
                               None \<Rightarrow> [] | Some u \<Rightarrow> [JStr u]))) \<rparr>) \<rparr>))"

text \<open>
  Lines 254 to 257 and 269 to 272: the rows of a document are its table rows, or its
  lines of text when it has no table row.
\<close>

definition rows_of :: "unicode \<Rightarrow> page list \<Rightarrow> pystr list list" where
  "rows_of U pages =
     (if extract_tables U pages = [] then extract_text_rows U pages else extract_tables U pages)"

definition main_ids :: "pystr set" where
  "main_ids = {str ''iphone'', str ''ipad'', str ''watch'', str ''airpods'', str ''beats'',
     str ''appletv'', str ''homepod''}"

text \<open>
  The second pass, lines 266 to 280, on the catalog as the first pass left it. An
  exception that nothing catches ends the run with exit code 1 before any file is
  written.
\<close>

definition mac_pass :: "unicode \<Rightarrow> 'o world \<Rightarrow> 'o catalog \<Rightarrow> py_error + counters \<times> 'o catalog" where
  "mac_pass U w cat =
     (case (if falsy (w_mac_pdf_url w) then None else w_mac_pdf_url w) of
        None \<Rightarrow> Inr (\<lparr> matched = 0, total = 0, updates = [] \<rparr>, cat)
      | Some mac_url \<Rightarrow>
          (case w_fetch w mac_url of
             None \<Rightarrow> Inl FetchError
           | Some pages \<Rightarrow>
               update_prices U cat (rows_of U pages) (extract_text_blocks U pages) {str ''mac''}))"

definition main :: "unicode \<Rightarrow> 'o world \<Rightarrow> 'o run" where
  "main U w =
     (if \<not> w_pdfplumber w then stopped 1
      else case (if falsy (w_pdf_url w) then None else w_pdf_url w) of
        None \<Rightarrow> stopped 1
      | Some pdf_url \<Rightarrow>
          (case w_fetch w pdf_url of
             None \<Rightarrow> stopped 1
           | Some pages \<Rightarrow>
               (case update_prices U (w_catalog w) (rows_of U pages)
                       (extract_text_blocks U pages) main_ids of
                  Inl e \<Rightarrow> stopped 1
                | Inr (st_main, cat1) \<Rightarrow>
                    (case mac_pass U w cat1 of
                       Inl e \<Rightarrow> stopped 1
                     | Inr (st_mac, cat2) \<Rightarrow>
                         finish (w_force w) pdf_url (w_mac_pdf_url w) (w_today w)
                           st_main st_mac cat2))))"


section \<open>Notions used in the statements\<close>

text \<open>
  \<open>extends st st'\<close>: the state \<open>st'\<close> is the state \<open>st\<close> moved forward over some
  characters of the searched string. \<open>first_occurrences xs\<close> is \<open>xs\<close> with every
  repetition of an earlier element left out.
\<close>

definition extends :: "mstate \<Rightarrow> mstate \<Rightarrow> bool" where
  "extends st st' = (\<exists>xs. fst st' = rev xs @ fst st \<and> fst (snd st) = xs @ fst (snd st'))"

definition first_occurrences :: "'a list \<Rightarrow> 'a list" where
  "first_occurrences xs = rev (remdups (rev xs))"

text \<open>
  What the loop body does with one item does not depend on the counters: \<open>item_entry\<close>
  is the entry it appends to \<^verbatim>\<open>updates\<close> and \<open>item_after\<close> is the item it leaves, both
  read off a run of \<open>update_item\<close> that starts with empty counters; \<open>record_entry\<close> is
  the change of the counters. \<open>selected\<close> says that the loop over the categories
  enters a category, \<open>items_of\<close> is \<^verbatim>\<open>category.get("items", [])\<close>, and \<open>visited\<close> lists
  the items of the entered categories in the order of the catalog.
\<close>

definition no_counters :: counters where
  "no_counters = \<lparr> matched = 0, total = 0, updates = [] \<rparr>"

definition item_after :: "unicode \<Rightarrow> pystr list list \<Rightarrow> pystr list \<Rightarrow> 'o item \<Rightarrow> 'o item" where
  "item_after U rows text_blocks it = snd (update_item U rows text_blocks no_counters it)"

definition item_entry :: "unicode \<Rightarrow> pystr list list \<Rightarrow> pystr list \<Rightarrow> 'o item \<Rightarrow> entry" where
  "item_entry U rows text_blocks it =
     last (updates (fst (update_item U rows text_blocks no_counters it)))"

definition record_entry :: "counters \<Rightarrow> entry \<Rightarrow> counters" where
  "record_entry st e = st\<lparr> total := total st + 1,
     matched := matched st + (if e_status e = Updated then 1 else 0),
     updates := updates st @ [e] \<rparr>"

definition selected :: "pystr set \<Rightarrow> 'o category \<Rightarrow> bool" where
  "selected category_ids c = (case cat_id c of None \<Rightarrow> False | Some cid \<Rightarrow> cid \<in> category_ids)"

definition items_of :: "'o category \<Rightarrow> 'o item list" where
  "items_of c = (case cat_items c of None \<Rightarrow> [] | Some its \<Rightarrow> its)"

definition category_after :: "unicode \<Rightarrow> pystr list list \<Rightarrow> pystr list \<Rightarrow> pystr set \<Rightarrow> 'o category
    \<Rightarrow> 'o category" where
  "category_after U rows text_blocks category_ids c =
     (if selected category_ids c
      then c\<lparr> cat_items := map_option (map (item_after U rows text_blocks)) (cat_items c) \<rparr>
      else c)"

definition visited :: "pystr set \<Rightarrow> 'o category list \<Rightarrow> 'o item list" where
  "visited category_ids cs = concat (map items_of (filter (selected category_ids) cs))"

text \<open>
  A small catalog to run the functions on: the category \<^verbatim>\<open>mac\<close> with the item
  \<^verbatim>\<open>imac\<close>, whose \<^verbatim>\<open>appleCare\<close> object has a one-time and a monthly price, and a
  document with the single row \<^verbatim>\<open>iMac 9E 3E 5E 7E\<close> (the euro sign for \<^verbatim>\<open>E\<close>) and no
  text block.
\<close>

definition demo_row :: pystr where
  "demo_row = str ''iMac 9'' @ [8364] @ str '' 3'' @ [8364] @ str '' 5'' @ [8364]
     @ str '' 7'' @ [8364]"

definition demo_prices :: "pystr list" where
  "demo_prices = [str ''9'' @ [8364], str ''3'' @ [8364], str ''5'' @ [8364], str ''7'' @ [8364]]"

definition demo_applecare :: "unit applecare" where
  "demo_applecare = \<lparr> standardOneTime = Some (JStr (str ''1'')),
     standardMonthly = Some (JStr (str ''2'')), theftOneTime = None, theftMonthly = None,
     ac_rest = [] \<rparr>"

definition demo_item :: "unit item" where
  "demo_item = \<lparr> item_id = Some (str ''imac''), item_name = Some (str ''iMac''),
     appleCare = Some demo_applecare, item_rest = [] \<rparr>"

definition demo_catalog :: "unit catalog" where
  "demo_catalog = \<lparr> categories = Some [\<lparr> cat_id = Some (str ''mac''),
       cat_items = Some [demo_item], cat_rest = [] \<rparr>],
     lastUpdated = None, sources = None, catalog_rest = [] \<rparr>"

text \<open>The item, the counters and the catalog after \<^verbatim>\<open>update_prices\<close> has run on them.\<close>

definition demo_item_after :: "unit item" where
  "demo_item_after = demo_item\<lparr> appleCare := Some (demo_applecare\<lparr>
     standardOneTime := Some (JStr (str ''9'' @ [8364])),
     standardMonthly := Some (JStr (str ''3'' @ [8364])),
     theftOneTime := Some (JStr (str ''5'' @ [8364])),
     theftMonthly := Some (JStr (str ''7'' @ [8364])) \<rparr>) \<rparr>"

definition demo_counters :: counters where
  "demo_counters = \<lparr> matched = 1, total = 1,
     updates = [\<lparr> e_id = str ''imac'', e_status = Updated, e_row = Some demo_row \<rparr>] \<rparr>"

definition demo_catalog_after :: "unit catalog" where
  "demo_catalog_after = \<lparr> categories = Some [\<lparr> cat_id = Some (str ''mac''),
       cat_items = Some [demo_item_after], cat_rest = [] \<rparr>],
     lastUpdated = None, sources = None, catalog_rest = [] \<rparr>"

text \<open>
  A run of the script: the main document has no page, the second document has one
  page with a table of one row, \<^verbatim>\<open>--force\<close> is not given.
\<close>

definition demo_page :: page where
  "demo_page = \<lparr> page_tables = Some [[[Some demo_row]]], page_text = None \<rparr>"

definition demo_world :: "unit world" where
  "demo_world = \<lparr> w_pdfplumber = True, w_force = False, w_pdf_url = Some (str ''u''),
     w_mac_pdf_url = Some (str ''m''), w_catalog = demo_catalog,
     w_fetch = (\<lambda>url. if url = str ''m'' then Some [demo_page] else Some []),
     w_today = str ''2026-11-03'' \<rparr>"

section \<open>The matcher only moves forward\<close>

lemma extends_refl: "extends st st"
  by (simp add: extends_def)

lemma extends_trans: "extends a b \<Longrightarrow> extends b c \<Longrightarrow> extends a c"
  by (auto simp: extends_def)

lemma step_char_extends: "st' \<in> set (step_char P st) \<Longrightarrow> extends st st'"
  by (cases "(P, st)" rule: step_char.cases) (auto simp: extends_def split: if_splits)

lemma star_from_extends:
  assumes f: "\<And>st st'. st' \<in> set (f st) \<Longrightarrow> extends st st'"
  shows "st' \<in> set (star_from n f st) \<Longrightarrow> extends st st'"
proof (induction n arbitrary: st)
  case 0
  then show ?case by (simp add: extends_refl)
next
  case (Suc n)
  from Suc.prems have "st' = st \<or> (\<exists>m \<in> set (f st). st' \<in> set (star_from n f m))"
    by (auto split: if_splits)
  then show ?case
  proof
    assume "st' = st"
    then show ?thesis by (simp add: extends_refl)
  next
    assume "\<exists>m \<in> set (f st). st' \<in> set (star_from n f m)"
    then obtain m where m: "m \<in> set (f st)" "st' \<in> set (star_from n f m)" by blast
    from f[OF m(1)] Suc.IH[OF m(2)] show ?thesis by (rule extends_trans)
  qed
qed

lemma set_group_extends: "extends st (set_group n st0 st') = extends st st'"
  by (cases st') (simp add: extends_def)

lemma matches_extends: "st' \<in> set (matches U ic r st) \<Longrightarrow> extends st st'"
proof (induction r arbitrary: st st')
  case (Star r)
  show ?case
    by (rule star_from_extends[where f = "matches U ic r" and n = "remaining st"])
       (use Star in auto)
next
  case (Seq r1 r2)
  from Seq.prems obtain m where "m \<in> set (matches U ic r1 st)" "st' \<in> set (matches U ic r2 m)"
    by auto
  then show ?case using Seq.IH by (blast intro: extends_trans)
next
  case (Group n r)
  from Group.prems obtain m where "m \<in> set (matches U ic r st)" "st' = set_group n st m"
    by auto
  then show ?case using Group.IH by (simp add: set_group_extends)
qed (auto simp: extends_refl split: if_splits dest: step_char_extends)

lemma consumed_extends:
  "extends (bef, aft, g) m \<Longrightarrow> prefix (consumed (bef, aft, g) m) aft"
  by (cases m) (auto simp: extends_def)

lemma hd_matches_prefix:
  "matches U ic r (bef, aft, g) = m # ms \<Longrightarrow> prefix (consumed (bef, aft, g) m) aft"
  by (rule consumed_extends, rule matches_extends[where U = U and ic = ic and r = r]) simp

text \<open>Every text \<^verbatim>\<open>findall\<close> returns stands in the searched string as it is.\<close>

lemma findall_from_sublist:
  "x \<in> set (findall_from U r bef aft skip) \<Longrightarrow> sublist x aft"
proof (induction aft arbitrary: bef skip)
  case Nil
  show ?case
  proof (cases "matches U False r (bef, [], [])")
    case Nil
    with Nil.prems show ?thesis by (simp split: if_splits)
  next
    case (Cons m ms)
    with Nil.prems have "x = consumed (bef, [], []) m" by (simp split: if_splits)
    with hd_matches_prefix[OF Cons] show ?thesis by (simp add: prefix_imp_sublist)
  qed
next
  case (Cons c aft)
  have rest: "sublist x (c # aft)" if "x \<in> set (findall_from U r (c # bef) aft k)" for k
    using Cons.IH[OF that] by (simp add: sublist_Cons_right)
  show ?case
  proof (cases "0 < skip")
    case True
    with Cons.prems show ?thesis by (auto intro: rest)
  next
    case False
    show ?thesis
    proof (cases "matches U False r (bef, c # aft, [])")
      case Nil
      with False Cons.prems show ?thesis by (auto intro: rest)
    next
      case (Cons m ms)
      with False Cons.prems have
        "x = consumed (bef, c # aft, []) m
         \<or> x \<in> set (findall_from U r (c # bef) aft (length (consumed (bef, c # aft, []) m) - 1))"
        by simp
      then show ?thesis
        using hd_matches_prefix[OF Cons] by (auto intro: rest prefix_imp_sublist)
    qed
  qed
qed


section \<open>The price tokens\<close>

lemma foldl_add_token:
  "foldl add_token acc xs = acc @ first_occurrences (filter (\<lambda>m. m \<notin> set acc) xs)"
proof (induction xs rule: rev_induct)
  case Nil
  then show ?case by (simp add: first_occurrences_def)
next
  case (snoc x xs)
  then show ?case by (auto simp: add_token_def first_occurrences_def)
qed

lemma find_price_tokens_sublist:
  "p \<in> set (find_price_tokens U t) \<Longrightarrow> sublist p t"
  by (auto simp: find_price_tokens_def foldl_add_token first_occurrences_def re_findall_def
      dest: findall_from_sublist)

lemmas ascii_defs = ascii_tables_def ascii_lower_char_def ascii_isupper_def ascii_isspace_def
  ascii_isalnum_def ascii_islower_def ascii_isdecimal_def ascii_ci_eq_def is_word_def

lemmas re_defs = re_sub_def re_findall_def re_search_def Plus_def Opt_def space_def digit_def
  nonword_def az_def expand_def strip_def replace_char_def str_def

text \<open>
  C3, as the code has it. The list is all matches of \<^verbatim>\<open>RANGE_RE\<close> in the order of the
  text, repetitions included, and after them the matches of \<^verbatim>\<open>PRICE_RE\<close> in the order
  of the text, each one only where it occurs first and only when it is no range token
  of the list. So the single amounts of the list are pairwise different and different
  from every range token, every range token stands before every single amount, and
  every match of \<^verbatim>\<open>PRICE_RE\<close> is in the list.
\<close>

theorem find_price_tokens_ranges_then_first_singles:
  "find_price_tokens U t =
     re_findall U RANGE_RE t
     @ first_occurrences
         (filter (\<lambda>m. m \<notin> set (re_findall U RANGE_RE t)) (re_findall U PRICE_RE t))
   \<and> distinct (drop (length (re_findall U RANGE_RE t)) (find_price_tokens U t))
   \<and> set (drop (length (re_findall U RANGE_RE t)) (find_price_tokens U t))
       \<inter> set (re_findall U RANGE_RE t) = {}
   \<and> set (re_findall U PRICE_RE t) \<subseteq> set (find_price_tokens U t)"
  by (auto simp: find_price_tokens_def foldl_add_token first_occurrences_def)

text \<open>The theorem at the text \<^verbatim>\<open>1-2E 3E 3E\<close>, with the euro sign for \<^verbatim>\<open>E\<close>.\<close>

theorem find_price_tokens_ranges_then_first_singles_witness:
  "find_price_tokens ascii_tables (str ''1-2'' @ [8364] @ str '' 3'' @ [8364] @ str '' 3'' @ [8364])
     = [str ''1-2'' @ [8364], str ''2'' @ [8364], str ''3'' @ [8364]]"
proof -
  have r: "re_findall ascii_tables RANGE_RE
             (str ''1-2'' @ [8364] @ str '' 3'' @ [8364] @ str '' 3'' @ [8364])
           = [str ''1-2'' @ [8364]]"
    by (simp add: RANGE_RE_def ascii_defs re_defs)
  have p: "re_findall ascii_tables PRICE_RE
             (str ''1-2'' @ [8364] @ str '' 3'' @ [8364] @ str '' 3'' @ [8364])
           = [str ''2'' @ [8364], str ''3'' @ [8364], str ''3'' @ [8364]]"
    by (simp add: PRICE_RE_def ascii_defs re_defs)
  show ?thesis
    using find_price_tokens_ranges_then_first_singles
      [of ascii_tables "str ''1-2'' @ [8364] @ str '' 3'' @ [8364] @ str '' 3'' @ [8364]"]
    unfolding r p by (simp add: first_occurrences_def str_def)
qed

text \<open>
  C3 as it is stated fails: a range that stands twice in the text is twice in the
  list. The text is \<^verbatim>\<open>1-2E 1-2E\<close>, with the euro sign for \<^verbatim>\<open>E\<close>.
\<close>

theorem find_price_tokens_repeats_range:
  "\<not> distinct (find_price_tokens ascii_tables (str ''1-2'' @ [8364] @ str '' 1-2'' @ [8364]))"
  by (simp add: find_price_tokens_def RANGE_RE_def PRICE_RE_def add_token_def ascii_defs re_defs)

text \<open>
  C4 fails on the code. The pattern \<^verbatim>\<open>\b([a-z])\s+([a-z])\b\<close> joins two letters only
  when each is a word of its own; in \<^verbatim>\<open>a pple\<close> the second letter is followed by a
  letter, so nothing is joined, and the two inputs of the claim are normalized to
  different strings.
\<close>

theorem normalize_keeps_split_letter:
  "normalize ascii_tables (str ''A pple Watch'') = str ''a pple watch''
   \<and> normalize ascii_tables (str ''Apple Watch'') = str ''apple watch''
   \<and> normalize ascii_tables (str ''A pple Watch'') \<noteq> normalize ascii_tables (str ''Apple Watch'')"
proof -
  have a: "normalize ascii_tables (str ''A pple Watch'') = str ''a pple watch''"
    by (simp add: normalize_def ascii_defs re_defs)
  have b: "normalize ascii_tables (str ''Apple Watch'') = str ''apple watch''"
    by (simp add: normalize_def ascii_defs re_defs)
  show ?thesis unfolding a b by (simp add: str_def)
qed


section \<open>\<^verbatim>\<open>choose_row\<close>\<close>

lemma aliases_nonempty: "map_of ALIASES iid = Some candidates \<Longrightarrow> candidates \<noteq> []"
  by (drule map_of_SomeD) (auto simp: ALIASES_def)

lemma scan_rows_find:
  "scan_rows U pattern rows = map_option (join [32]) (find (row_matches U pattern) rows)"
  by (induction rows) auto

lemma scan_rows_None: "(scan_rows U pattern rows = None) = (\<forall>row \<in> set rows. \<not> row_matches U pattern row)"
  by (induction rows) auto

lemma scan_patterns_find:
  "scan_patterns U candidates rows =
     (case find (\<lambda>pattern. list_ex (row_matches U pattern) rows) candidates of
        None \<Rightarrow> None
      | Some pattern \<Rightarrow> scan_rows U pattern rows)"
proof (induction candidates)
  case Nil
  then show ?case by simp
next
  case (Cons p ps)
  show ?case
  proof (cases "scan_rows U p rows")
    case None
    then have "\<not> list_ex (row_matches U p) rows" by (simp add: scan_rows_None list_ex_iff)
    with None Cons show ?thesis by simp
  next
    case (Some t)
    then have "list_ex (row_matches U p) rows"
      using scan_rows_None[of U p rows] by (simp add: list_ex_iff)
    with Some show ?thesis by simp
  qed
qed

lemma scan_patterns_None:
  "(scan_patterns U candidates rows = None)
     = (\<forall>pattern \<in> set candidates. \<forall>row \<in> set rows. \<not> row_matches U pattern row)"
proof (induction candidates)
  case Nil
  then show ?case by simp
next
  case (Cons p ps)
  show ?case
  proof (cases "scan_rows U p rows")
    case None
    with Cons show ?thesis using scan_rows_None[of U p rows] by simp
  next
    case (Some t)
    then have "\<not> (\<forall>row \<in> set rows. \<not> row_matches U p row)"
      using scan_rows_None[of U p rows] by simp
    with Some show ?thesis by simp
  qed
qed

text \<open>
  C5. For an item id with an entry in \<^verbatim>\<open>ALIASES\<close> the result is decided by the first
  pattern of the entry, in the order of the list, that matches some row; the row
  returned is the first row, in the order of the document, that this pattern matches.
  A row that only a later pattern matches is therefore chosen when no row matches an
  earlier pattern. When no pattern matches any row the result is \<^verbatim>\<open>None\<close>; the word
  scorer is not consulted.
\<close>

theorem choose_row_alias_priority:
  assumes "map_of ALIASES iid = Some candidates"
  shows "choose_row U iid product_name rows =
     (case find (\<lambda>pattern. list_ex (row_matches U pattern) rows) candidates of
        None \<Rightarrow> None
      | Some pattern \<Rightarrow> map_option (join [32]) (find (row_matches U pattern) rows))
   \<and> ((choose_row U iid product_name rows = None)
        = (\<forall>pattern \<in> set candidates. \<forall>row \<in> set rows. \<not> row_matches U pattern row))"
proof -
  have ne: "candidates \<noteq> []" using assms by (rule aliases_nonempty)
  have c: "choose_row U iid product_name rows = scan_patterns U candidates rows"
    using assms ne by (simp add: choose_row_def aliases_get_def)
  have eq: "scan_patterns U candidates rows =
     (case find (\<lambda>pattern. list_ex (row_matches U pattern) rows) candidates of
        None \<Rightarrow> None
      | Some pattern \<Rightarrow> map_option (join [32]) (find (row_matches U pattern) rows))"
    by (simp add: scan_patterns_find scan_rows_find split: option.splits)
  from eq scan_patterns_None[of U candidates rows] show ?thesis
    unfolding c by (rule conjI)
qed

lemma score_empty: "\<forall>w \<in> set ws. w \<noteq> [] \<Longrightarrow> score ws [] = 0"
  by (auto simp: score_def filter_empty_conv)

lemma Max_cons_ge: "s \<le> Max (set (s # xs))"
  by (rule Max_ge) simp_all

lemma Max_cons_cons: "Max (set (s # x # xs)) = Max (set (max s x # xs))"
proof (cases xs)
  case Nil
  then show ?thesis by (simp add: max.commute)
next
  case (Cons y ys)
  then show ?thesis by (simp add: max.assoc max.commute max.left_commute)
qed

lemma best_row_char:
  assumes ws: "\<forall>w \<in> set ws. w \<noteq> []"
  shows "best_row U ws rows (b, s) =
     (if s < Max (set (s # map (\<lambda>row. score ws (normalize U (join [32] row))) rows))
      then map_option (join [32])
             (find (\<lambda>row. score ws (normalize U (join [32] row))
                = Max (set (s # map (\<lambda>row. score ws (normalize U (join [32] row))) rows))) rows)
      else b,
      Max (set (s # map (\<lambda>row. score ws (normalize U (join [32] row))) rows)))"
proof (induction rows arbitrary: b s)
  case Nil
  then show ?case by simp
next
  case (Cons r rs)
  let ?sc = "\<lambda>row. score ws (normalize U (join [32] row))"
  have M: "Max (set (s # map ?sc (r # rs))) = Max (set (max s (?sc r) # map ?sc rs))"
    using Max_cons_cons[of s "?sc r" "map ?sc rs"] by simp
  show ?case
  proof (cases "s < ?sc r")
    case True
    then have ne: "normalize U (join [32] r) \<noteq> []" using score_empty[OF ws] by auto
    from True have mx: "max s (?sc r) = ?sc r" by simp
    define m where "m = Max (set (?sc r # map ?sc rs))"
    have ge: "?sc r \<le> m" unfolding m_def by (rule Max_cons_ge)
    have step: "best_row U ws (r # rs) (b, s) = best_row U ws rs (Some (join [32] r), ?sc r)"
      using True ne by (simp add: Let_def)
    show ?thesis unfolding step Cons.IH M mx m_def[symmetric] using True ge by auto
  next
    case False
    then have mx: "max s (?sc r) = s" by simp
    define m where "m = Max (set (s # map ?sc rs))"
    have ge: "s \<le> m" unfolding m_def by (rule Max_cons_ge)
    have step: "best_row U ws (r # rs) (b, s) = best_row U ws rs (b, s)"
      using False by (simp add: Let_def)
    show ?thesis unfolding step Cons.IH M mx m_def[symmetric] using False ge by auto
  qed
qed

text \<open>
  C6, as the code has it. For an item id without an entry in \<^verbatim>\<open>ALIASES\<close> the score of
  a row is the number of words of the normalized name that occur in the normalized
  row. The function returns the first row with the highest score, provided that score
  is at least \<open>max 2 (n div 2)\<close> for the \<open>n\<close> words of the name, and \<^verbatim>\<open>None\<close> otherwise.
  The half is the quotient of the floor division \<^verbatim>\<open>len(target_words) // 2\<close> of line
  150, so for an odd number of words the bound is below half the word count.
\<close>

theorem choose_row_generic_scorer:
  assumes "map_of ALIASES iid = None"
  shows "choose_row U iid product_name rows =
    (let target_words = target_words_of U product_name;
         score_of = (\<lambda>row. score target_words (normalize U (join [32] row)));
         best_score = Max (set (0 # map score_of rows))
     in if max 2 (length target_words div 2) \<le> best_score
        then map_option (join [32]) (find (\<lambda>row. score_of row = best_score) rows)
        else None)"
proof -
  have ws: "\<forall>w \<in> set (target_words_of U product_name). w \<noteq> []"
    by (simp add: target_words_of_def)
  show ?thesis
    using assms by (auto simp: choose_row_def aliases_get_def Let_def best_row_char[OF ws])
qed

text \<open>
  The theorem at the item \<^verbatim>\<open>pro-display-xdr\<close>: no row matches the first pattern
  \<^verbatim>\<open>\bpro display xdr\b\<close>, the second row matches the second pattern \<^verbatim>\<open>\bpro display\b\<close>.
\<close>

theorem choose_row_alias_priority_witness:
  "map_of ALIASES (str ''pro-display-xdr'') = Some [bw ''pro display xdr'', bw ''pro display'']
   \<and> choose_row ascii_tables (str ''pro-display-xdr'') (str ''Pro Display XDR'')
        [[str ''iMac''], [str ''Pro Display'']] = Some (str ''Pro Display'')"
proof -
  have a: "map_of ALIASES (str ''pro-display-xdr'') = Some [bw ''pro display xdr'', bw ''pro display'']"
    by (simp add: ALIASES_def str_def)
  have n1: "normalize ascii_tables (str ''iMac'') = str ''imac''"
    by (simp add: normalize_def ascii_defs re_defs)
  have n2: "normalize ascii_tables (str ''Pro Display'') = str ''pro display''"
    by (simp add: normalize_def ascii_defs re_defs)
  have m11: "\<not> row_matches ascii_tables (bw ''pro display xdr'') [str ''iMac'']"
    unfolding row_matches_def join.simps n1 by (simp add: bw_def lit_def ascii_defs re_defs)
  have m12: "\<not> row_matches ascii_tables (bw ''pro display xdr'') [str ''Pro Display'']"
    unfolding row_matches_def join.simps n2 by (simp add: bw_def lit_def ascii_defs re_defs)
  have m21: "\<not> row_matches ascii_tables (bw ''pro display'') [str ''iMac'']"
    unfolding row_matches_def join.simps n1 by (simp add: bw_def lit_def ascii_defs re_defs)
  have m22: "row_matches ascii_tables (bw ''pro display'') [str ''Pro Display'']"
    unfolding row_matches_def join.simps n2 by (simp add: bw_def lit_def ascii_defs re_defs)
  show ?thesis
    using choose_row_alias_priority[OF a, of ascii_tables "str ''Pro Display XDR''"
        "[[str ''iMac''], [str ''Pro Display'']]"]
    by (simp add: a m11 m12 m21 m22)
qed

text \<open>
  The theorem at the name \<^verbatim>\<open>Ab Cd\<close>: the rows score 1, 2 and 2, the bound is 2, and the
  first row with score 2 is returned.
\<close>

theorem choose_row_generic_scorer_witness:
  "map_of ALIASES (str ''pencil'') = None
   \<and> choose_row ascii_tables (str ''pencil'') (str ''Ab Cd'')
        [[str ''ab''], [str ''cd ab''], [str ''ab cd'']] = Some (str ''cd ab'')"
proof -
  have a: "map_of ALIASES (str ''pencil'') = None"
    by (simp add: ALIASES_def str_def)
  have w: "target_words_of ascii_tables (str ''Ab Cd'') = [str ''ab'', str ''cd'']"
    by (simp add: target_words_of_def normalize_def ascii_defs re_defs)
  have n1: "normalize ascii_tables (str ''ab'') = str ''ab''"
    by (simp add: normalize_def ascii_defs re_defs)
  have n2: "normalize ascii_tables (str ''cd ab'') = str ''cd ab''"
    by (simp add: normalize_def ascii_defs re_defs)
  have n3: "normalize ascii_tables (str ''ab cd'') = str ''ab cd''"
    by (simp add: normalize_def ascii_defs re_defs)
  have s1: "score [str ''ab'', str ''cd''] (str ''ab'') = 1"
    by (simp add: score_def str_def sublist_Cons_right)
  have s2: "score [str ''ab'', str ''cd''] (str ''cd ab'') = 2"
    by (simp add: score_def str_def sublist_Cons_right)
  have s3: "score [str ''ab'', str ''cd''] (str ''ab cd'') = 2"
    by (simp add: score_def str_def sublist_Cons_right)
  show ?thesis
    using choose_row_generic_scorer[OF a, of ascii_tables "str ''Ab Cd''"
        "[[str ''ab''], [str ''cd ab''], [str ''ab cd'']]"]
    by (simp add: a w n1 n2 n3 s1 s2 s3 Let_def)
qed


text \<open>
  C6 as it is stated fails for a name with an odd number of words: the name
  \<^verbatim>\<open>ab cd ef gh ij\<close> has five words, the row \<^verbatim>\<open>ab cd\<close> scores 2, which is below half of
  five, and the row is returned.
\<close>

theorem choose_row_below_half_returned:
  "map_of ALIASES (str ''pencil'') = None
   \<and> length (target_words_of ascii_tables (str ''ab cd ef gh ij'')) = 5
   \<and> score (target_words_of ascii_tables (str ''ab cd ef gh ij''))
         (normalize ascii_tables (str ''ab cd'')) = 2
   \<and> (of_nat (score (target_words_of ascii_tables (str ''ab cd ef gh ij''))
                 (normalize ascii_tables (str ''ab cd''))) :: rat)
       < max 2 (of_nat (length (target_words_of ascii_tables (str ''ab cd ef gh ij''))) / 2)
   \<and> choose_row ascii_tables (str ''pencil'') (str ''ab cd ef gh ij'') [[str ''ab cd'']]
       = Some (str ''ab cd'')"
proof -
  have a: "map_of ALIASES (str ''pencil'') = None"
    by (simp add: ALIASES_def str_def)
  have w: "target_words_of ascii_tables (str ''ab cd ef gh ij'')
             = [str ''ab'', str ''cd'', str ''ef'', str ''gh'', str ''ij'']"
    by (simp add: target_words_of_def normalize_def ascii_defs re_defs)
  have n: "normalize ascii_tables (str ''ab cd'') = str ''ab cd''"
    by (simp add: normalize_def ascii_defs re_defs)
  have ne: "str ''ab cd'' \<noteq> []"
    by (simp add: str_def)
  have s: "score [str ''ab'', str ''cd'', str ''ef'', str ''gh'', str ''ij''] (str ''ab cd'') = 2"
    by (simp add: score_def str_def sublist_Cons_right)
  have c: "choose_row ascii_tables (str ''pencil'') (str ''ab cd ef gh ij'') [[str ''ab cd'']]
       = Some (str ''ab cd'')"
    using a by (simp add: choose_row_def aliases_get_def w n s ne Let_def)
  show ?thesis using a c by (simp add: w n s)
qed


section \<open>The loop body of \<^verbatim>\<open>update_prices\<close>\<close>

lemma expected_of_cases:
  "expected_of a = (if (\<exists>v. standardMonthly a = Some v \<and> v \<noteq> JNull) then 2 else 1)"
  by (auto simp: expected_of_def split: option.splits jval.splits)

lemma expected_of_range: "expected_of a = 1 \<or> expected_of a = 2"
  by (simp add: expected_of_cases)

lemma final_match_prices:
  "final_match U text_blocks it row_text1 used = (row_text, prices)
   \<Longrightarrow> prices = find_price_tokens U row_text"
  by (auto simp: final_match_def Let_def split: if_splits option.splits)

lemma update_item_matched:
  assumes "locate U rows text_blocks it = (Some row_text1, used)" "row_text1 \<noteq> []"
    and "final_match U text_blocks it row_text1 used = (row_text, prices)"
  shows "update_item U rows text_blocks st it =
    (if length prices < expected_of (get_applecare it)
     then (st\<lparr> total := total st + 1,
               updates := updates st
                 @ [\<lparr> e_id = get_id it, e_status = NotEnoughPrices, e_row = Some row_text \<rparr>] \<rparr>,
           it)
     else (st\<lparr> total := total st + 1, matched := matched st + 1,
               updates := updates st
                 @ [\<lparr> e_id = get_id it, e_status = Updated, e_row = Some row_text \<rparr>] \<rparr>,
           it\<lparr> appleCare := Some (assign (expected_of (get_applecare it)) prices (get_applecare it)) \<rparr>))"
  using assms by (simp add: update_item_def Let_def)

lemma update_item_no_match:
  assumes "locate U rows text_blocks it = (r, used)" "falsy r"
  shows "update_item U rows text_blocks st it =
    (st\<lparr> total := total st + 1,
         updates := updates st @ [\<lparr> e_id = get_id it, e_status = NoMatch, e_row = None \<rparr>] \<rparr>, it)"
  using assms by (simp add: update_item_def Let_def)

lemma demo_norm: "normalize ascii_tables demo_row = str ''imac 9 3 5 7''"
  by (simp add: demo_row_def normalize_def ascii_defs re_defs)

lemma demo_match: "row_matches ascii_tables (bw ''imac'') [demo_row]"
  unfolding row_matches_def join.simps demo_norm
  by (simp add: bw_def lit_def ascii_defs re_defs)

lemma demo_alias: "aliases_get (str ''imac'') = [bw ''imac'']"
  by (simp add: aliases_get_def ALIASES_def str_def)

lemma demo_choose: "choose_row ascii_tables (str ''imac'') (str ''iMac'') [[demo_row]] = Some demo_row"
  by (simp add: choose_row_def demo_alias demo_match)

lemma demo_row_ne: "demo_row \<noteq> []"
  by (simp add: demo_row_def str_def)

lemma demo_locate: "locate ascii_tables [[demo_row]] [] demo_item = (Some demo_row, False)"
  by (simp add: locate_def get_id_def get_name_def demo_item_def demo_choose)

lemma demo_tokens: "find_price_tokens ascii_tables demo_row = demo_prices"
  by (simp add: find_price_tokens_def RANGE_RE_def PRICE_RE_def add_token_def demo_row_def
      demo_prices_def ascii_defs re_defs)

lemma demo_final: "final_match ascii_tables [] demo_item demo_row False = (demo_row, demo_prices)"
  by (simp add: final_match_def demo_tokens)

lemma demo_expected: "expected_of (get_applecare demo_item) = 2"
  by (simp add: expected_of_def get_applecare_def demo_item_def demo_applecare_def)

lemma demo_update:
  "update_item ascii_tables [[demo_row]] [] st demo_item =
     (st\<lparr> total := total st + 1, matched := matched st + 1,
          updates := updates st
            @ [\<lparr> e_id = str ''imac'', e_status = Updated, e_row = Some demo_row \<rparr>] \<rparr>,
      demo_item\<lparr> appleCare := Some (demo_applecare\<lparr>
        standardOneTime := Some (JStr (str ''9'' @ [8364])),
        standardMonthly := Some (JStr (str ''3'' @ [8364])),
        theftOneTime := Some (JStr (str ''5'' @ [8364])),
        theftMonthly := Some (JStr (str ''7'' @ [8364])) \<rparr>) \<rparr>)"
  unfolding update_item_matched[OF demo_locate demo_row_ne demo_final] demo_expected
  by (simp add: demo_prices_def assign_def get_id_def get_applecare_def demo_item_def)

text \<open>
  C1. When a row or window was found for the item, the number of prices required is
  2 if the \<^verbatim>\<open>standardMonthly\<close> field of the item's \<^verbatim>\<open>appleCare\<close> object is there and not
  \<^verbatim>\<open>null\<close>, and 1 otherwise. With at least that many tokens in the final token list
  the entry is \<^verbatim>\<open>updated\<close>, token 0 is written to \<^verbatim>\<open>standardOneTime\<close> and, when 2 are
  required, token 1 to \<^verbatim>\<open>standardMonthly\<close>. With fewer tokens the entry is
  \<^verbatim>\<open>not-enough-prices\<close> and the item is left as it was.
\<close>

theorem update_item_required_count:
  assumes "locate U rows text_blocks it = (Some row_text1, used)" and "row_text1 \<noteq> []"
    and "final_match U text_blocks it row_text1 used = (row_text, prices)"
    and "update_item U rows text_blocks st it = (st', it')"
  shows "expected_of (get_applecare it)
           = (if (\<exists>v. standardMonthly (get_applecare it) = Some v \<and> v \<noteq> JNull) then 2 else 1)
   \<and> (expected_of (get_applecare it) \<le> length prices \<longrightarrow>
        updates st' = updates st
          @ [\<lparr> e_id = get_id it, e_status = Updated, e_row = Some row_text \<rparr>]
        \<and> matched st' = matched st + 1 \<and> total st' = total st + 1
        \<and> standardOneTime (get_applecare it') = Some (JStr (prices ! 0))
        \<and> (expected_of (get_applecare it) = 2
             \<longrightarrow> standardMonthly (get_applecare it') = Some (JStr (prices ! 1)))
        \<and> (expected_of (get_applecare it) = 1
             \<longrightarrow> standardMonthly (get_applecare it') = standardMonthly (get_applecare it)))
   \<and> (length prices < expected_of (get_applecare it) \<longrightarrow>
        updates st' = updates st
          @ [\<lparr> e_id = get_id it, e_status = NotEnoughPrices, e_row = Some row_text \<rparr>]
        \<and> matched st' = matched st \<and> total st' = total st + 1
        \<and> it' = it)"
proof -
  note u = update_item_matched[OF assms(1,2,3), of st]
  from assms(4) u show ?thesis
    by (auto simp: expected_of_cases get_applecare_def assign_def Let_def split: if_splits)
qed

text \<open>The theorem at the item \<^verbatim>\<open>imac\<close> and the row \<^verbatim>\<open>iMac 9E 3E 5E 7E\<close>.\<close>

theorem update_item_required_count_witness:
  "locate ascii_tables [[demo_row]] [] demo_item = (Some demo_row, False)
   \<and> final_match ascii_tables [] demo_item demo_row False = (demo_row, demo_prices)
   \<and> expected_of (get_applecare demo_item) = 2
   \<and> updates (fst (update_item ascii_tables [[demo_row]] [] no_counters demo_item))
       = [\<lparr> e_id = str ''imac'', e_status = Updated, e_row = Some demo_row \<rparr>]
   \<and> standardOneTime (get_applecare (snd (update_item ascii_tables [[demo_row]] [] no_counters demo_item)))
       = Some (JStr (str ''9'' @ [8364]))
   \<and> standardMonthly (get_applecare (snd (update_item ascii_tables [[demo_row]] [] no_counters demo_item)))
       = Some (JStr (str ''3'' @ [8364]))"
proof -
  have len: "expected_of (get_applecare demo_item) \<le> length demo_prices"
    by (simp add: demo_expected demo_prices_def)
  have gid: "get_id demo_item = str ''imac''" by (simp add: get_id_def demo_item_def)
  show ?thesis
    using update_item_required_count[OF demo_locate demo_row_ne demo_final surjective_pairing,
        of no_counters] len
    by (simp add: demo_locate demo_final demo_expected gid no_counters_def demo_prices_def)
qed

text \<open>
  C7. When the final token list of an item has four or more tokens, the entry is
  \<^verbatim>\<open>updated\<close>, token 2 is written to \<^verbatim>\<open>theftOneTime\<close> and token 3 to \<^verbatim>\<open>theftMonthly\<close>,
  whether one price or two were required.
\<close>

theorem update_item_premium_tier:
  assumes "locate U rows text_blocks it = (Some row_text1, used)" and "row_text1 \<noteq> []"
    and "final_match U text_blocks it row_text1 used = (row_text, prices)"
    and "update_item U rows text_blocks st it = (st', it')"
    and "4 \<le> length prices"
  shows "updates st' = updates st
          @ [\<lparr> e_id = get_id it, e_status = Updated, e_row = Some row_text \<rparr>]
   \<and> theftOneTime (get_applecare it') = Some (JStr (prices ! 2))
   \<and> theftMonthly (get_applecare it') = Some (JStr (prices ! 3))"
proof -
  note u = update_item_matched[OF assms(1,2,3), of st]
  have "expected_of (get_applecare it) \<le> 2" using expected_of_range[of "get_applecare it"] by auto
  with assms(5) have "\<not> length prices < expected_of (get_applecare it)" by simp
  with assms(4,5) u show ?thesis
    by (auto simp: get_applecare_def assign_def Let_def)
qed

text \<open>The theorem at the same item and row, which has four tokens.\<close>

theorem update_item_premium_tier_witness:
  "4 \<le> length demo_prices
   \<and> theftOneTime (get_applecare (snd (update_item ascii_tables [[demo_row]] [] no_counters demo_item)))
       = Some (JStr (str ''5'' @ [8364]))
   \<and> theftMonthly (get_applecare (snd (update_item ascii_tables [[demo_row]] [] no_counters demo_item)))
       = Some (JStr (str ''7'' @ [8364]))"
proof -
  have len: "4 \<le> length demo_prices" by (simp add: demo_prices_def)
  show ?thesis
    using update_item_premium_tier[OF demo_locate demo_row_ne demo_final surjective_pairing len,
        of no_counters] len
    by (simp add: demo_prices_def)
qed

text \<open>
  C8. The prices are the tokens the extractor finds in the row or window of the
  report entry, and each of them stands in that text as it is. The item after the
  step is the item before it, or the item with the prices assigned from the first
  four tokens alone. Each price field keeps its value or holds the token of its own
  index, 0 to 3 in the order \<^verbatim>\<open>standardOneTime\<close>, \<^verbatim>\<open>standardMonthly\<close>, \<^verbatim>\<open>theftOneTime\<close>,
  \<^verbatim>\<open>theftMonthly\<close>, as a string; the other keys of the object are kept.
\<close>

theorem update_item_literal_tokens:
  assumes "locate U rows text_blocks it = (Some row_text1, used)" and "row_text1 \<noteq> []"
    and "final_match U text_blocks it row_text1 used = (row_text, prices)"
    and "update_item U rows text_blocks st it = (st', it')"
  shows "prices = find_price_tokens U row_text
   \<and> (\<forall>p \<in> set prices. sublist p row_text)
   \<and> (it' = it \<or> it' = it\<lparr> appleCare :=
         Some (assign (expected_of (get_applecare it)) (take 4 prices) (get_applecare it)) \<rparr>)
   \<and> (standardOneTime (get_applecare it') = standardOneTime (get_applecare it)
        \<or> 0 < length prices \<and> standardOneTime (get_applecare it') = Some (JStr (prices ! 0)))
   \<and> (standardMonthly (get_applecare it') = standardMonthly (get_applecare it)
        \<or> 1 < length prices \<and> standardMonthly (get_applecare it') = Some (JStr (prices ! 1)))
   \<and> (theftOneTime (get_applecare it') = theftOneTime (get_applecare it)
        \<or> 2 < length prices \<and> theftOneTime (get_applecare it') = Some (JStr (prices ! 2)))
   \<and> (theftMonthly (get_applecare it') = theftMonthly (get_applecare it)
        \<or> 3 < length prices \<and> theftMonthly (get_applecare it') = Some (JStr (prices ! 3)))
   \<and> ac_rest (get_applecare it') = ac_rest (get_applecare it)"
proof -
  note u = update_item_matched[OF assms(1,2,3), of st]
  have p: "prices = find_price_tokens U row_text" using assms(3) by (rule final_match_prices)
  have sub: "\<forall>p \<in> set prices. sublist p row_text"
    unfolding p by (auto dest: find_price_tokens_sublist)
  have e: "expected_of (get_applecare it) = 1 \<or> expected_of (get_applecare it) = 2"
    by (rule expected_of_range)
  have t: "assign n (take 4 prices) a = assign n prices a" for n and a :: "'a applecare"
    by (simp add: assign_def Let_def)
  from assms(4) u e have rest:
    "(it' = it \<or> it' = it\<lparr> appleCare :=
         Some (assign (expected_of (get_applecare it)) (take 4 prices) (get_applecare it)) \<rparr>)
   \<and> (standardOneTime (get_applecare it') = standardOneTime (get_applecare it)
        \<or> 0 < length prices \<and> standardOneTime (get_applecare it') = Some (JStr (prices ! 0)))
   \<and> (standardMonthly (get_applecare it') = standardMonthly (get_applecare it)
        \<or> 1 < length prices \<and> standardMonthly (get_applecare it') = Some (JStr (prices ! 1)))
   \<and> (theftOneTime (get_applecare it') = theftOneTime (get_applecare it)
        \<or> 2 < length prices \<and> theftOneTime (get_applecare it') = Some (JStr (prices ! 2)))
   \<and> (theftMonthly (get_applecare it') = theftMonthly (get_applecare it)
        \<or> 3 < length prices \<and> theftMonthly (get_applecare it') = Some (JStr (prices ! 3)))
   \<and> ac_rest (get_applecare it') = ac_rest (get_applecare it)"
    unfolding t by (auto simp: get_applecare_def assign_def Let_def split: if_splits)
  from p sub rest show ?thesis by blast
qed

text \<open>The theorem at the same item and row.\<close>

theorem update_item_literal_tokens_witness:
  "demo_prices = find_price_tokens ascii_tables demo_row
   \<and> sublist (str ''7'' @ [8364]) demo_row
   \<and> snd (update_item ascii_tables [[demo_row]] [] no_counters demo_item) = demo_item_after
   \<and> ac_rest (get_applecare (snd (update_item ascii_tables [[demo_row]] [] no_counters demo_item)))
       = ac_rest (get_applecare demo_item)"
proof -
  note t = update_item_literal_tokens[OF demo_locate demo_row_ne demo_final surjective_pairing,
      of no_counters]
  have m: "str ''7'' @ [8364] \<in> set demo_prices" by (simp add: demo_prices_def)
  from t m have s: "sublist (str ''7'' @ [8364]) demo_row" by blast
  have a: "snd (update_item ascii_tables [[demo_row]] [] no_counters demo_item) = demo_item_after"
    by (simp add: demo_update demo_item_after_def)
  from t s a show ?thesis by simp
qed


section \<open>\<^verbatim>\<open>update_prices\<close> on a catalog\<close>

lemma update_item_shape:
  "update_item U rows text_blocks st it =
     (record_entry st (item_entry U rows text_blocks it), item_after U rows text_blocks it)"
  by (simp add: update_item_def item_entry_def item_after_def record_entry_def no_counters_def
      Let_def split: prod.splits option.splits if_splits)

lemma expected_of_assign:
  "expected_of (assign (expected_of a) prices a) = expected_of a"
  using expected_of_range[of a]
  by (auto simp: assign_def Let_def expected_of_def split: option.splits jval.splits)

lemma assign_assign: "assign n prices (assign n prices a) = assign n prices a"
  by (simp add: assign_def Let_def)

lemma item_after_cases:
  "item_after U rows text_blocks it = it
   \<or> (e_status (item_entry U rows text_blocks it) = Updated
      \<and> (\<exists>prices. item_after U rows text_blocks it
            = it\<lparr> appleCare := Some (assign (expected_of (get_applecare it)) prices (get_applecare it)) \<rparr>))"
  by (auto simp: update_item_def item_entry_def item_after_def no_counters_def
      Let_def split: prod.splits option.splits if_splits)

lemma item_after_unchanged:
  "e_status (item_entry U rows text_blocks it) \<noteq> Updated \<Longrightarrow> item_after U rows text_blocks it = it"
  using item_after_cases[of U rows text_blocks it] by blast

lemma get_id_appleCare [simp]: "get_id (it\<lparr> appleCare := a \<rparr>) = get_id it"
  by (simp add: get_id_def)

lemma get_name_appleCare [simp]: "get_name (it\<lparr> appleCare := a \<rparr>) = get_name it"
  by (simp add: get_name_def)

lemma locate_appleCare [simp]:
  "locate U rows text_blocks (it\<lparr> appleCare := a \<rparr>) = locate U rows text_blocks it"
  by (simp add: locate_def Let_def cong: if_cong)

lemma update_item_again:
  "update_item U rows text_blocks st (item_after U rows text_blocks it)
     = update_item U rows text_blocks st it"
proof -
  obtain r used where loc: "locate U rows text_blocks it = (r, used)" by force
  show ?thesis
  proof (cases "falsy r")
    case True
    have "item_after U rows text_blocks it = it"
      using update_item_no_match[OF loc True, of no_counters] by (simp add: item_after_def)
    then show ?thesis by simp
  next
    case False
    then obtain rt where r: "r = Some rt" "rt \<noteq> []" by (cases r) auto
    obtain row_text prices where fm: "final_match U text_blocks it rt used = (row_text, prices)"
      by force
    note u = update_item_matched[OF loc[unfolded r(1)] r(2) fm]
    let ?a = "get_applecare it"
    show ?thesis
    proof (cases "length prices < expected_of ?a")
      case True
      then have "item_after U rows text_blocks it = it"
        using u[of no_counters] by (simp add: item_after_def)
      then show ?thesis by simp
    next
      case False
      let ?it' = "it\<lparr> appleCare := Some (assign (expected_of ?a) prices ?a) \<rparr>"
      have ia: "item_after U rows text_blocks it = ?it'"
        using u[of no_counters] False by (simp add: item_after_def)
      have ga: "get_applecare ?it' = assign (expected_of ?a) prices ?a"
        by (simp add: get_applecare_def)
      have loc': "locate U rows text_blocks ?it' = (Some rt, used)"
        using loc r by simp
      have fm': "final_match U text_blocks ?it' rt used = (row_text, prices)"
        using fm by (simp add: final_match_def ga expected_of_assign Let_def cong: if_cong option.case_cong)
      note u' = update_item_matched[OF loc' r(2) fm', of st]
      show ?thesis unfolding ia u' u[of st] ga expected_of_assign assign_assign
        using False by simp
    qed
  qed
qed

lemma item_entry_again:
  "item_entry U rows text_blocks (item_after U rows text_blocks it) = item_entry U rows text_blocks it"
  by (simp add: item_entry_def update_item_again)

lemma item_after_again:
  "item_after U rows text_blocks (item_after U rows text_blocks it) = item_after U rows text_blocks it"
  using update_item_again[of U rows text_blocks no_counters it]
  by (simp add: item_after_def)

lemma update_items_shape:
  "update_items U rows text_blocks st its =
     (foldl record_entry st (map (item_entry U rows text_blocks) its),
      map (item_after U rows text_blocks) its)"
  by (induction its arbitrary: st) (simp_all add: update_item_shape)

lemma update_category_shape:
  "update_category U rows text_blocks category_ids st c =
     (case cat_id c of
        None \<Rightarrow> Inl KeyError
      | Some cid \<Rightarrow>
          Inr (if selected category_ids c
               then foldl record_entry st (map (item_entry U rows text_blocks) (items_of c))
               else st,
               category_after U rows text_blocks category_ids c))"
  by (simp add: update_category_def category_after_def selected_def items_of_def
      update_items_shape split: option.splits)

lemma update_categories_shape:
  "update_categories U rows text_blocks category_ids st cs =
     (if list_all (\<lambda>c. cat_id c \<noteq> None) cs
      then Inr (foldl record_entry st
                  (map (item_entry U rows text_blocks) (visited category_ids cs)),
                map (category_after U rows text_blocks category_ids) cs)
      else Inl KeyError)"
proof (induction cs arbitrary: st)
  case Nil
  then show ?case by (simp add: visited_def)
next
  case (Cons c cs)
  show ?case
  proof (cases "cat_id c")
    case None
    then show ?thesis by (simp add: update_category_shape)
  next
    case (Some cid)
    then show ?thesis
      by (simp add: update_category_shape Cons.IH visited_def)
  qed
qed

lemma update_prices_shape:
  "update_prices U cat rows text_blocks category_ids =
     (case categories cat of
        None \<Rightarrow> Inr (no_counters, cat)
      | Some cs \<Rightarrow>
          if list_all (\<lambda>c. cat_id c \<noteq> None) cs
          then Inr (foldl record_entry no_counters
                      (map (item_entry U rows text_blocks) (visited category_ids cs)),
                    cat\<lparr> categories :=
                      Some (map (category_after U rows text_blocks category_ids) cs) \<rparr>)
          else Inl KeyError)"
  by (simp add: update_prices_def update_categories_shape no_counters_def Let_def
      split: option.splits)

lemma updates_foldl_record: "updates (foldl record_entry st es) = updates st @ es"
  by (induction es arbitrary: st) (simp_all add: record_entry_def)

lemma total_foldl_record: "total (foldl record_entry st es) = total st + length es"
  by (induction es arbitrary: st) (simp_all add: record_entry_def)

lemma matched_foldl_record:
  "matched (foldl record_entry st es)
     = matched st + length (filter (\<lambda>e. e_status e = Updated) es)"
  by (induction es arbitrary: st) (simp_all add: record_entry_def)

lemma selected_after [simp]:
  "selected ids (category_after U rows text_blocks ids c) = selected ids c"
  by (simp add: category_after_def selected_def)

lemma cat_id_after [simp]:
  "cat_id (category_after U rows text_blocks ids c) = cat_id c"
  by (simp add: category_after_def)

lemma items_of_after:
  "selected ids c \<Longrightarrow> items_of (category_after U rows text_blocks ids c)
     = map (item_after U rows text_blocks) (items_of c)"
  by (simp add: category_after_def items_of_def split: option.splits)

lemma category_after_again:
  "category_after U rows text_blocks ids (category_after U rows text_blocks ids c)
     = category_after U rows text_blocks ids c"
  by (cases "cat_items c")
     (simp_all add: category_after_def selected_def item_after_again split: option.splits)

lemma visited_after:
  "visited ids (map (category_after U rows text_blocks ids) cs)
     = map (item_after U rows text_blocks) (visited ids cs)"
  by (induction cs) (simp_all add: visited_def items_of_after)

lemma demo_run:
  "update_prices ascii_tables demo_catalog [[demo_row]] [] {str ''mac''}
     = Inr (demo_counters, demo_catalog_after)"
  by (simp add: update_prices_def update_category_def demo_catalog_def demo_catalog_after_def
      demo_update demo_item_after_def demo_counters_def Let_def)

text \<open>
  C9. When \<^verbatim>\<open>update_prices\<close> returns, a second call on the catalog it left, with the
  same rows, text blocks and category ids, returns the same counters and entries and
  leaves that catalog as it is.
\<close>

theorem update_prices_idempotent:
  assumes "update_prices U cat rows text_blocks category_ids = Inr (st, cat')"
  shows "update_prices U cat' rows text_blocks category_ids = Inr (st, cat')"
proof (cases "categories cat")
  case None
  with assms have "cat' = cat" "st = no_counters" by (simp_all add: update_prices_shape)
  with None show ?thesis by (simp add: update_prices_shape)
next
  case (Some cs)
  with assms have ids: "list_all (\<lambda>c. cat_id c \<noteq> None) cs"
    by (simp add: update_prices_shape split: if_splits)
  from assms Some ids have
    st: "st = foldl record_entry no_counters
                (map (item_entry U rows text_blocks) (visited category_ids cs))"
    and cat': "cat' = cat\<lparr> categories :=
                 Some (map (category_after U rows text_blocks category_ids) cs) \<rparr>"
    by (simp_all add: update_prices_shape)
  have ids': "list_all (\<lambda>c. cat_id c \<noteq> None)
                (map (category_after U rows text_blocks category_ids) cs)"
    using ids by (simp add: list_all_iff)
  show ?thesis
    unfolding update_prices_shape[of U cat'] unfolding cat' st
    using ids'
    by (simp add: visited_after category_after_again item_entry_again comp_def)
qed

text \<open>The theorem at the small catalog.\<close>

theorem update_prices_idempotent_witness:
  "update_prices ascii_tables demo_catalog [[demo_row]] [] {str ''mac''}
     = Inr (demo_counters, demo_catalog_after)
   \<and> update_prices ascii_tables demo_catalog_after [[demo_row]] [] {str ''mac''}
     = Inr (demo_counters, demo_catalog_after)"
  using update_prices_idempotent[OF demo_run] demo_run by simp

text \<open>
  C10. When \<^verbatim>\<open>update_prices\<close> returns, the catalog differs from the one it was given
  only in the items of the categories whose id is in \<^verbatim>\<open>category_ids\<close>: the categories
  and their items are the same in number and order, a category outside
  \<^verbatim>\<open>category_ids\<close> is unchanged, an item differs from the one before at most in its
  \<^verbatim>\<open>appleCare\<close> object, and an item whose entry is not \<^verbatim>\<open>updated\<close> is unchanged. The
  entries of \<^verbatim>\<open>updates\<close> are those of the visited items, in their order.
\<close>

theorem update_prices_frame:
  assumes "update_prices U cat rows text_blocks category_ids = Inr (st, cat')"
  shows "cat' = cat\<lparr> categories := map_option (map (\<lambda>c.
            if selected category_ids c
            then c\<lparr> cat_items := map_option (map (item_after U rows text_blocks)) (cat_items c) \<rparr>
            else c)) (categories cat) \<rparr>
   \<and> updates st = map (item_entry U rows text_blocks)
        (visited category_ids (case categories cat of None \<Rightarrow> [] | Some cs \<Rightarrow> cs))
   \<and> (\<forall>it :: 'a item. item_after U rows text_blocks it
          = it\<lparr> appleCare := appleCare (item_after U rows text_blocks it) \<rparr>)
   \<and> (\<forall>it :: 'a item. e_status (item_entry U rows text_blocks it) \<noteq> Updated
          \<longrightarrow> item_after U rows text_blocks it = it)"
proof -
  have a: "item_after U rows text_blocks it
          = it\<lparr> appleCare := appleCare (item_after U rows text_blocks it) \<rparr>" for it :: "'a item"
    using item_after_cases[of U rows text_blocks it] by auto
  have b: "e_status (item_entry U rows text_blocks it) \<noteq> Updated
          \<longrightarrow> item_after U rows text_blocks it = it" for it :: "'a item"
    using item_after_unchanged[of U rows text_blocks it] by blast
  have c: "cat' = cat\<lparr> categories := map_option (map (\<lambda>c.
            if selected category_ids c
            then c\<lparr> cat_items := map_option (map (item_after U rows text_blocks)) (cat_items c) \<rparr>
            else c)) (categories cat) \<rparr>
   \<and> updates st = map (item_entry U rows text_blocks)
        (visited category_ids (case categories cat of None \<Rightarrow> [] | Some cs \<Rightarrow> cs))"
  proof (cases "categories cat")
    case None
    with assms show ?thesis
      by (auto simp: update_prices_shape no_counters_def visited_def)
  next
    case (Some cs)
    with assms show ?thesis
      by (auto simp: update_prices_shape updates_foldl_record no_counters_def
          category_after_def[abs_def] split: if_splits)
  qed
  from a b c show ?thesis by blast
qed

text \<open>The theorem at the small catalog.\<close>

theorem update_prices_frame_witness:
  "update_prices ascii_tables demo_catalog [[demo_row]] [] {str ''mac''}
     = Inr (demo_counters, demo_catalog_after)
   \<and> updates demo_counters = [item_entry ascii_tables [[demo_row]] [] demo_item]
   \<and> demo_catalog_after = demo_catalog\<lparr> categories := Some [\<lparr> cat_id = Some (str ''mac''),
        cat_items = Some [item_after ascii_tables [[demo_row]] [] demo_item], cat_rest = [] \<rparr>] \<rparr>
   \<and> item_after ascii_tables [[demo_row]] [] demo_item
       = demo_item\<lparr> appleCare := appleCare (item_after ascii_tables [[demo_row]] [] demo_item) \<rparr>"
proof -
  note t = update_prices_frame[OF demo_run]
  note t1 = t[THEN conjunct1]
  note t2 = t[THEN conjunct2, THEN conjunct1]
  note t3 = t[THEN conjunct2, THEN conjunct2, THEN conjunct1]
  from t2 have u: "updates demo_counters = [item_entry ascii_tables [[demo_row]] [] demo_item]"
    by (simp add: visited_def selected_def items_of_def demo_catalog_def)
  from t1 have c: "demo_catalog_after = demo_catalog\<lparr> categories := Some [\<lparr> cat_id = Some (str ''mac''),
        cat_items = Some [item_after ascii_tables [[demo_row]] [] demo_item], cat_rest = [] \<rparr>] \<rparr>"
    by (simp add: selected_def demo_catalog_def)
  from t3 have i: "item_after ascii_tables [[demo_row]] [] demo_item
       = demo_item\<lparr> appleCare := appleCare (item_after ascii_tables [[demo_row]] [] demo_item) \<rparr>"
    by (rule spec)
  from demo_run u c i show ?thesis by blast
qed


section \<open>The acceptance test of \<^verbatim>\<open>main\<close>\<close>

lemma ratio_of_total: "ratio_of m t = Inr (if t = 0 then 0 else of_nat m / of_nat t)"
  by (simp add: ratio_of_def py_truediv_def)

lemma main_reaches_finish:
  assumes "w_pdfplumber w" "w_pdf_url w = Some pdf_url" "pdf_url \<noteq> []"
    and "w_fetch w pdf_url = Some pages"
    and "update_prices U (w_catalog w) (rows_of U pages) (extract_text_blocks U pages) main_ids
           = Inr (st_main, cat1)"
    and "mac_pass U w cat1 = Inr (st_mac, cat2)"
  shows "main U w = finish (w_force w) pdf_url (w_mac_pdf_url w) (w_today w) st_main st_mac cat2"
  using assms by (simp add: main_def)

lemma demo_rows_empty: "rows_of ascii_tables [] = []"
  by (simp add: rows_of_def extract_tables_def extract_text_rows_def)

lemma demo_blocks_empty: "extract_text_blocks ascii_tables [] = []"
  by (simp add: extract_text_blocks_def)

lemma demo_rows: "rows_of ascii_tables [demo_page] = [[demo_row]]"
  by (simp add: rows_of_def extract_tables_def table_rows_def clean_cell_def demo_page_def
      demo_row_def ascii_defs strip_def str_def)

lemma demo_blocks: "extract_text_blocks ascii_tables [demo_page] = []"
  by (simp add: extract_text_blocks_def text_of_def demo_page_def strip_def)

lemma demo_main_pass:
  "update_prices ascii_tables demo_catalog [] [] main_ids = Inr (no_counters, demo_catalog)"
  by (simp add: update_prices_def update_category_def demo_catalog_def main_ids_def
      no_counters_def str_def)

lemma demo_urls: "str ''u'' \<noteq> []" "str ''m'' \<noteq> []" "str ''u'' \<noteq> str ''m''"
  by (simp_all add: str_def)

lemma demo_mac_pass:
  "mac_pass ascii_tables demo_world demo_catalog = Inr (demo_counters, demo_catalog_after)"
  by (simp add: mac_pass_def demo_world_def demo_rows demo_blocks demo_run demo_urls)

lemma demo_no_mac_pass:
  "mac_pass ascii_tables (demo_world\<lparr> w_mac_pdf_url := None \<rparr>) demo_catalog
     = Inr (no_counters, demo_catalog)"
  by (simp add: mac_pass_def no_counters_def)

text \<open>
  C2. For a run that reaches line 282: the ratio is the quotient of the matched and
  the total count, and 0 for the total 0, where the division is not made. When the
  ratio is below the threshold 1.0 and \<^verbatim>\<open>--force\<close> is not given, the report is written,
  the catalog is not, and the exit code is 2. When the ratio reaches the threshold or
  \<^verbatim>\<open>--force\<close> is given, the report and the catalog are written and the exit code is
  0.
\<close>

theorem acceptance_policy:
  assumes "w_pdfplumber w" and "w_pdf_url w = Some pdf_url" and "pdf_url \<noteq> []"
    and "w_fetch w pdf_url = Some pages"
    and "update_prices U (w_catalog w) (rows_of U pages) (extract_text_blocks U pages) main_ids
           = Inr (st_main, cat1)"
    and "mac_pass U w cat1 = Inr (st_mac, cat2)"
    and "m = matched st_main + matched st_mac" and "t = total st_main + total st_mac"
  shows "\<exists>ratio.
      ratio_of m t = Inr ratio \<and> ratio = (if t = 0 then 0 else of_nat m / of_nat t)
      \<and> (ratio < threshold \<and> \<not> w_force w \<longrightarrow>
           main U w = \<lparr> exit_code = 2,
             report_written = Some \<lparr> r_matched = m, r_total = t, r_ratio = ratio,
               r_main = updates st_main, r_mac = updates st_mac \<rparr>,
             catalog_written = None \<rparr>)
      \<and> (threshold \<le> ratio \<or> w_force w \<longrightarrow>
           exit_code (main U w) = 0
           \<and> report_written (main U w) = Some \<lparr> r_matched = m, r_total = t, r_ratio = ratio,
               r_main = updates st_main, r_mac = updates st_mac \<rparr>
           \<and> (\<exists>c. catalog_written (main U w) = Some c
                \<and> categories c = categories cat2 \<and> catalog_rest c = catalog_rest cat2))"
  unfolding main_reaches_finish[OF assms(1-6)] assms(7,8)
  by (auto simp: ratio_of_total finish_def Let_def)

text \<open>
  The theorem at two runs: without a second document nothing is counted and the
  catalog is refused; with the second document the one item is matched and the
  catalog is written.
\<close>

theorem acceptance_policy_witness:
  "main ascii_tables (demo_world\<lparr> w_mac_pdf_url := None \<rparr>)
     = \<lparr> exit_code = 2,
         report_written = Some \<lparr> r_matched = 0, r_total = 0, r_ratio = 0, r_main = [], r_mac = [] \<rparr>,
         catalog_written = None \<rparr>
   \<and> exit_code (main ascii_tables demo_world) = 0
   \<and> report_written (main ascii_tables demo_world)
       = Some \<lparr> r_matched = 1, r_total = 1, r_ratio = 1, r_main = [],
                r_mac = updates demo_counters \<rparr>
   \<and> map_option categories (catalog_written (main ascii_tables demo_world))
       = Some (categories demo_catalog_after)"
proof -
  let ?w = "demo_world\<lparr> w_mac_pdf_url := None \<rparr>"
  have p1: "w_pdfplumber demo_world" "w_pdfplumber ?w" by (simp_all add: demo_world_def)
  have p2: "w_pdf_url demo_world = Some (str ''u'')" "w_pdf_url ?w = Some (str ''u'')"
    by (simp_all add: demo_world_def)
  have p4: "w_fetch demo_world (str ''u'') = Some []" "w_fetch ?w (str ''u'') = Some []"
    by (simp_all add: demo_world_def demo_urls)
  have p5: "update_prices ascii_tables (w_catalog demo_world) (rows_of ascii_tables [])
              (extract_text_blocks ascii_tables []) main_ids = Inr (no_counters, demo_catalog)"
    "update_prices ascii_tables (w_catalog ?w) (rows_of ascii_tables [])
              (extract_text_blocks ascii_tables []) main_ids = Inr (no_counters, demo_catalog)"
    by (simp_all add: demo_world_def demo_rows_empty demo_blocks_empty demo_main_pass)
  have f: "\<not> w_force demo_world" "\<not> w_force ?w" by (simp_all add: demo_world_def)
  have m0: "(0::nat) = matched no_counters + matched no_counters"
    "(0::nat) = total no_counters + total no_counters"
    by (simp_all add: no_counters_def)
  have m1: "(1::nat) = matched no_counters + matched demo_counters"
    "(1::nat) = total no_counters + total demo_counters"
    by (simp_all add: no_counters_def demo_counters_def)
  have u0: "updates no_counters = []" by (simp add: no_counters_def)
  from acceptance_policy[OF p1(2) p2(2) demo_urls(1) p4(2) p5(2) demo_no_mac_pass m0] f(2)
  have a: "main ascii_tables ?w
     = \<lparr> exit_code = 2,
         report_written = Some \<lparr> r_matched = 0, r_total = 0, r_ratio = 0, r_main = [], r_mac = [] \<rparr>,
         catalog_written = None \<rparr>"
    by (auto simp: threshold_def u0)
  from acceptance_policy[OF p1(1) p2(1) demo_urls(1) p4(1) p5(1) demo_mac_pass m1] f(1)
  have b: "exit_code (main ascii_tables demo_world) = 0
   \<and> report_written (main ascii_tables demo_world)
       = Some \<lparr> r_matched = 1, r_total = 1, r_ratio = 1, r_main = [],
                r_mac = updates demo_counters \<rparr>
   \<and> map_option categories (catalog_written (main ascii_tables demo_world))
       = Some (categories demo_catalog_after)"
    by (auto simp: threshold_def u0)
  from a b show ?thesis by blast
qed

end
